theory Spec2Isabelle
  imports Complex_Main "HOL-Library.AList"
begin

text \<open>
  A model of the bridge between a physics worker and the React side of use-cannon: the
  Provider's frame handler and render loop, the registry from identities to buffer
  indices, the subscription and body hooks, and the two versions of the worker script.
  Mutable JavaScript state is passed explicitly; a thrown exception is a value returned
  next to the state in which it was thrown.
\<close>

section \<open>Values crossing the worker boundary\<close>

text \<open>
  JavaScript numbers are modelled as reals (rounding to float32 in the transform buffers
  is not modelled).  A value read from a typed array beyond its length is
  \<^verbatim>\<open>undefined\<close>; it is \<open>None\<close> here.
\<close>

type_synonym jsnum = "real option"

text \<open>Plain data; \<open>JObj\<close> is a plain object: not iterable and without methods.\<close>

datatype jsval =
    JUndefined
  | JNull
  | JNum real
  | JBool bool
  | JStr string
  | JArr "jsval list"
  | JObj

type_synonym triplet = "real \<times> real \<times> real"

datatype vector3 = Vector3 jsnum jsnum jsnum

datatype quaternion = Quaternion jsnum jsnum jsnum jsnum

text \<open>
  A \<^verbatim>\<open>Matrix4\<close> is kept symbolic: the identity, the composition of a translation, a
  rotation and a scale read from the buffers (\<^verbatim>\<open>m.compose(v, q, s)\<close>), or the matrix
  \<^verbatim>\<open>updateMatrix()\<close> builds from a handle's own position, Euler rotation and scale.
\<close>

datatype matrix4 =
    Identity
  | Compose vector3 quaternion vector3
  | FromPose triplet triplet vector3

definition rd :: "real list \<Rightarrow> nat \<Rightarrow> jsnum" where
  "rd arr i = (if i < length arr then Some (arr ! i) else None)"

definition v_fromArray :: "real list \<Rightarrow> nat \<Rightarrow> vector3" where
  "v_fromArray arr off = Vector3 (rd arr off) (rd arr (off + 1)) (rd arr (off + 2))"

definition q_fromArray :: "real list \<Rightarrow> nat \<Rightarrow> quaternion" where
  "q_fromArray arr off =
     Quaternion (rd arr off) (rd arr (off + 1)) (rd arr (off + 2)) (rd arr (off + 3))"

text \<open>\<^verbatim>\<open>const s = new Vector3(1, 1, 1)\<close>\<close>

definition s_one :: vector3 where
  "s_one = Vector3 (Some 1) (Some 1) (Some 1)"

section \<open>Visual handles\<close>

text \<open>
  \<^verbatim>\<open>instanceMatrix\<close> of an \<^verbatim>\<open>InstancedMesh\<close>: one transform slot per replica and the
  attribute's \<^verbatim>\<open>version\<close>, which three.js bumps on every assignment
  \<^verbatim>\<open>needsUpdate = true\<close>; \<open>version\<close> therefore counts how often the buffer was
  marked dirty.
\<close>

record instancedMesh =
  count :: nat
  instanceMatrix :: "matrix4 list"
  version :: nat

text \<open>
  An \<^verbatim>\<open>Object3D\<close>; \<open>instanced\<close> is \<open>Some\<close> exactly when the object is an
  \<^verbatim>\<open>InstancedMesh\<close>.
\<close>

record object3D =
  uuid :: string
  userData :: jsval
  position :: triplet
  rotation :: triplet
  scale :: vector3
  matrix :: matrix4
  matrixAutoUpdate :: bool
  instanced :: "instancedMesh option"

text \<open>
  \<^verbatim>\<open>setMatrixAt(i, m)\<close> copies \<open>m\<close> into slot \<open>i\<close> of the typed array; a write
  beyond the array is dropped, as \<open>list_update\<close> does.
\<close>

definition setMatrixAt :: "nat \<Rightarrow> matrix4 \<Rightarrow> instancedMesh \<Rightarrow> instancedMesh" where
  "setMatrixAt i m im = im\<lparr>instanceMatrix := (instanceMatrix im)[i := m]\<rparr>"

definition needsUpdate_true :: "instancedMesh \<Rightarrow> instancedMesh" where
  "needsUpdate_true im = im\<lparr>version := Suc (version im)\<rparr>"

section \<open>Provider: the caller-side context\<close>

datatype callback = Callback string

record event_record =
  collide :: "callback option"
  collideBegin :: "callback option"
  collideEnd :: "callback option"
  rayhit :: "callback option"

text \<open>The body descriptor a hook's \<^verbatim>\<open>fn(index)\<close> returns.\<close>

record bodyProps =
  p_args :: jsval
  p_position :: "triplet option"
  p_rotation :: "triplet option"
  p_userData :: "jsval option"
  onCollide :: "callback option"
  onCollideBegin :: "callback option"
  onCollideEnd :: "callback option"

text \<open>The descriptor as serialised for the worker: callbacks never cross the boundary.\<close>

record serializableProps =
  s_args :: jsval
  s_position :: "triplet option"
  s_rotation :: "triplet option"
  s_userData :: "jsval option"
  s_onCollide :: bool

record stepProps =
  maxSubSteps :: nat
  stepSize :: real
  timeSinceLastCalled :: real

text \<open>Calls made on the \<^verbatim>\<open>CannonWorkerAPI\<close> object, in order.\<close>

datatype api_call =
    Api_step stepProps
  | Api_subscribe nat string string string
  | Api_unsubscribe nat
  | Api_addBodies "serializableProps list" string "string list"
  | Api_removeBodies "string list"

text \<open>
  The state the Provider and the hooks share.  \<open>refs\<close> is a JavaScript object with
  string keys: an association list in insertion order whose values are references into
  the store \<open>objects\<close>, so that several identities can name one handle.  Callbacks are
  opaque user code; \<open>calls\<close> records each invocation with its argument, and
  \<open>invalidations\<close> counts the calls of \<^verbatim>\<open>invalidate()\<close>.
\<close>

record ctx =
  bodies_current :: "string \<rightharpoonup> nat"
  refs :: "(string \<times> nat) list"
  objects :: "nat \<rightharpoonup> object3D"
  events :: "(string \<times> event_record) list"
  subscriptions :: "nat \<rightharpoonup> (string \<rightharpoonup> callback)"
  incrementingId :: nat
  api_calls :: "api_call list"
  calls :: "(callback \<times> jsval) list"
  invalidations :: nat

subsection \<open>apply\<close>

text \<open>
  \<^verbatim>\<open>function apply(index, positions, quaternions, object?)\<close>: returns the composed
  matrix and the object after the write.
\<close>

fun apply_fn ::
  "nat option \<Rightarrow> real list \<Rightarrow> real list \<Rightarrow> object3D option \<Rightarrow> matrix4 \<times> object3D option" where
  "apply_fn (Some index) positions quaternions object =
     (let m = Compose (v_fromArray positions (index * 3)) (q_fromArray quaternions (index * 4))
                (case object of Some ob \<Rightarrow> scale ob | None \<Rightarrow> s_one)
      in (m, map_option (\<lambda>ob. ob\<lparr>matrixAutoUpdate := False, matrix := m\<rparr>) object))"
| "apply_fn None positions quaternions object = (Identity, object)"

subsection \<open>Decimal strings for replica identities\<close>

definition digit :: "nat \<Rightarrow> char" where
  "digit d = ''0123456789'' ! d"

fun string_of_nat :: "nat \<Rightarrow> string" where
  "string_of_nat n =
     (if n < 10 then [digit n] else string_of_nat (n div 10) @ [digit (n mod 10)])"

declare string_of_nat.simps [simp del]

text \<open>The template literal \<^verbatim>\<open>`${uuid}/${i}`\<close>.\<close>

definition replica_uuid :: "string \<Rightarrow> nat \<Rightarrow> string" where
  "replica_uuid u i = u @ ''/'' @ string_of_nat i"

subsection \<open>frameHandler\<close>

record frame_message =
  active :: bool
  bodies :: "string list option"
  observations :: "(nat \<times> jsval \<times> string) list"
  positions :: "real list"
  quaternions :: "real list"

text \<open>
  \<^verbatim>\<open>for (let i = 0; i < uuids.length; i++) bodies.current[uuids[i]] = i\<close>, started at
  index \<open>i\<close>.
\<close>

fun index_bodies :: "string list \<Rightarrow> nat \<Rightarrow> (string \<rightharpoonup> nat) \<Rightarrow> (string \<rightharpoonup> nat)" where
  "index_bodies [] i reg = reg"
| "index_bodies (u # us) i reg = index_bodies us (Suc i) (reg(u \<mapsto> i))"

text \<open>
  One observation: \<^verbatim>\<open>const subscription = subscriptions[id] || {}\<close>,
  \<^verbatim>\<open>const cb = subscription[type]\<close>, \<^verbatim>\<open>cb && cb(value)\<close>.  The result is the list of
  invocations made (none or one).  The type is one of the property names subscriptions
  are made for; none of them is a member every JavaScript object inherits.
\<close>

definition route ::
  "(nat \<rightharpoonup> (string \<rightharpoonup> callback)) \<Rightarrow> nat \<times> jsval \<times> string \<Rightarrow> (callback \<times> jsval) list" where
  "route subs ob =
     (case ob of (sid, val, type) \<Rightarrow>
        (let subscription = (case subs sid of Some sub \<Rightarrow> sub | None \<Rightarrow> Map.empty)
         in case subscription type of Some cb \<Rightarrow> [(cb, val)] | None \<Rightarrow> []))"

text \<open>The body of the loop over the replicas of an \<^verbatim>\<open>InstancedMesh\<close>.\<close>

definition replica_step ::
  "(string \<rightharpoonup> nat) \<Rightarrow> real list \<Rightarrow> real list \<Rightarrow> string \<Rightarrow> nat \<Rightarrow> instancedMesh \<Rightarrow> instancedMesh" where
  "replica_step reg ps qs u i im =
     (let index = reg (replica_uuid u i);
          im1 = (case index of
                   Some ix \<Rightarrow> setMatrixAt i (fst (apply_fn (Some ix) ps qs None)) im
                 | None \<Rightarrow> im)
      in needsUpdate_true im1)"

text \<open>One iteration of \<^verbatim>\<open>for (const ref of Object.values(refs))\<close> on the handle itself.\<close>

definition visit_handle ::
  "(string \<rightharpoonup> nat) \<Rightarrow> real list \<Rightarrow> real list \<Rightarrow> object3D \<Rightarrow> object3D" where
  "visit_handle reg ps qs ob =
     (case instanced ob of
        Some im \<Rightarrow>
          ob\<lparr>instanced := Some (fold (replica_step reg ps qs (uuid ob)) [0..<count im] im)\<rparr>
      | None \<Rightarrow>
          (case snd (apply_fn (reg (uuid ob)) ps qs (Some ob)) of
             Some ob' \<Rightarrow> ob'
           | None \<Rightarrow> ob))"

text \<open>The same iteration on the store, through the reference held in \<open>refs\<close>.\<close>

definition visit ::
  "(string \<rightharpoonup> nat) \<Rightarrow> real list \<Rightarrow> real list \<Rightarrow> nat \<Rightarrow> (nat \<rightharpoonup> object3D) \<Rightarrow> (nat \<rightharpoonup> object3D)" where
  "visit reg ps qs r store =
     (case store r of
        Some ob \<Rightarrow> store(r \<mapsto> visit_handle reg ps qs ob)
      | None \<Rightarrow> store)"

definition frameHandler :: "bool \<Rightarrow> frame_message \<Rightarrow> ctx \<Rightarrow> ctx" where
  "frameHandler shouldInvalidate msg c =
     (let uuids = (case bodies msg of Some us \<Rightarrow> us | None \<Rightarrow> []);
          c1 = c\<lparr>bodies_current := index_bodies uuids 0 (bodies_current c)\<rparr>;
          c2 = c1\<lparr>calls := calls c1 @ concat (map (route (subscriptions c1)) (observations msg))\<rparr>
      in if active msg then
           (let c3 = c2\<lparr>objects :=
                         fold (visit (bodies_current c2) (positions msg) (quaternions msg))
                           (map snd (refs c2)) (objects c2)\<rparr>
            in if shouldInvalidate then c3\<lparr>invalidations := Suc (invalidations c3)\<rparr> else c3)
         else c2)"

subsection \<open>The older Provider: the sync message\<close>

text \<open>\<^verbatim>\<open>bodies.indexOf(id)\<close>: the first position of \<open>id\<close>, \<open>-1\<close> when absent.\<close>

fun indexOf :: "string list \<Rightarrow> string \<Rightarrow> int" where
  "indexOf [] x = -1"
| "indexOf (y # ys) x =
     (if y = x then 0 else (let k = indexOf ys x in if k < 0 then -1 else k + 1))"

text \<open>
  \<^verbatim>\<open>bodies.current = e.data.bodies.reduce((acc, id) => ({ ...acc, [id]: bodies.indexOf(id) }), {})\<close>
\<close>

definition sync_handler :: "string list \<Rightarrow> (string \<rightharpoonup> int)" where
  "sync_handler ids = foldl (\<lambda>acc i. acc(i \<mapsto> indexOf ids i)) Map.empty ids"

section \<open>Subscriptions (hooks)\<close>

text \<open>
  \<^verbatim>\<open>getUUID(ref, index)\<close>.  The forwarded ref is \<open>ref.current\<close>: a reference into the
  store or \<^verbatim>\<open>null\<close> (a function ref never reaches here: \<^verbatim>\<open>useForwardedRef\<close> replaces
  it).
\<close>

definition getUUID :: "(nat \<rightharpoonup> object3D) \<Rightarrow> nat option \<Rightarrow> nat option \<Rightarrow> string option" where
  "getUUID store current index =
     (let suffix = (case index of None \<Rightarrow> [] | Some i \<Rightarrow> ''/'' @ string_of_nat i)
      in case current of
           None \<Rightarrow> None
         | Some r \<Rightarrow> (case store r of None \<Rightarrow> None | Some ob \<Rightarrow> Some (uuid ob @ suffix)))"

text \<open>
  \<^verbatim>\<open>subscribe(ref, worker, subscriptions, type, index, target)(callback)\<close>.  The result
  is the fresh id, which stands for the returned closure, and the context after the call;
  \<open>unsubscribe\<close> is that closure.  \<^verbatim>\<open>uuid && worker.subscribe(...)\<close> sends nothing for
  \<^verbatim>\<open>null\<close> and for the empty string.
\<close>

definition subscribe ::
  "nat option \<Rightarrow> string \<Rightarrow> nat option \<Rightarrow> string \<Rightarrow> callback \<Rightarrow> ctx \<Rightarrow> nat \<times> ctx" where
  "subscribe current type index target cb c =
     (let sid = incrementingId c;
          c1 = c\<lparr>incrementingId := Suc sid\<rparr>;
          c2 = c1\<lparr>subscriptions := (subscriptions c1)(sid \<mapsto> [type \<mapsto> cb])\<rparr>;
          c3 = (case getUUID (objects c2) current index of
                  None \<Rightarrow> c2
                | Some u \<Rightarrow>
                    if u = [] then c2
                    else c2\<lparr>api_calls := api_calls c2 @ [Api_subscribe sid target type u]\<rparr>)
      in (sid, c3))"

definition unsubscribe :: "nat \<Rightarrow> ctx \<Rightarrow> ctx" where
  "unsubscribe sid c =
     (let c1 = c\<lparr>subscriptions := (subscriptions c)(sid := None)\<rparr>
      in c1\<lparr>api_calls := api_calls c1 @ [Api_unsubscribe sid]\<rparr>)"

text \<open>What may happen later on the caller side: further subscriptions, closures run, frames.\<close>

datatype hook_event =
    Subscribes "nat option" string "nat option" string callback
  | Unsubscribes nat
  | Frame bool frame_message

fun hook_step :: "hook_event \<Rightarrow> ctx \<Rightarrow> ctx" where
  "hook_step (Subscribes current type index target cb) c =
     snd (subscribe current type index target cb c)"
| "hook_step (Unsubscribes sid) c = unsubscribe sid c"
| "hook_step (Frame shouldInvalidate msg) c = frameHandler shouldInvalidate msg c"

section \<open>The simulation host (worker)\<close>

text \<open>
  The physics engine is an external collaborator.  A shape is kept as the name of its
  constructor with the arguments handed to it; what the engine decides on its own is a
  parameter of the model: whether a shape constructor throws on given arguments, the
  quaternion \<^verbatim>\<open>setFromEuler\<close> computes, what \<^verbatim>\<open>world.step\<close> does to the bodies, and what
  \<^verbatim>\<open>world.removeBody\<close> does when handed \<^verbatim>\<open>undefined\<close>.
\<close>

datatype error = TypeError | Error string

datatype shape = Shape string "jsval list"

text \<open>
  A \<^verbatim>\<open>Body\<close>.  Objects are compared by reference in JavaScript; \<open>body_id\<close> is that
  identity (the engine numbers its bodies from a counter in the same way).
\<close>

record body =
  body_id :: nat
  b_uuid :: string
  b_kinematic :: bool
  b_options :: "(string \<times> jsval) list"
  b_shapes :: "shape list"
  b_position :: triplet
  b_quaternion :: "real \<times> real \<times> real \<times> real"

record engine =
  shape_throws :: "string \<Rightarrow> jsval list \<Rightarrow> error option"
  setFromEuler :: "real \<Rightarrow> real \<Rightarrow> real \<Rightarrow> real \<times> real \<times> real \<times> real"
  world_step :: "real \<Rightarrow> real option \<Rightarrow> nat option \<Rightarrow> body list \<Rightarrow> body list"
  removeBody_undefined :: "error option"

text \<open>One call \<^verbatim>\<open>world.step(dt, timeSinceLastCalled, maxSubSteps)\<close> with the arguments given.\<close>

record step_call =
  sc_dt :: real
  sc_timeSinceLastCalled :: "real option"
  sc_maxSubSteps :: "nat option"

datatype worker_message =
    Frame_message "real list" "real list"
  | Sync_message "string list"

text \<open>
  The worker's globals: \<^verbatim>\<open>world\<close> (its body list and the settings \<^verbatim>\<open>init\<close> writes),
  the table \<^verbatim>\<open>bodies\<close> from identity to body, \<^verbatim>\<open>config\<close>; \<open>step_calls\<close> records the
  calls of \<^verbatim>\<open>world.step\<close> and \<open>posted\<close> the messages given to \<^verbatim>\<open>self.postMessage\<close>.
  Identities are the uuid strings the caller generates.
\<close>

record host =
  world_bodies :: "body list"
  idCounter :: nat
  bodies_w :: "string \<rightharpoonup> nat"
  config_step :: real
  w_gravity :: triplet
  w_tolerance :: real
  w_iterations :: nat
  w_allowSleep :: bool
  w_broadphase :: string
  step_calls :: "step_call list"
  posted :: "worker_message list"

text \<open>
  \<^verbatim>\<open>self.postMessage({ op: 'sync', bodies: world.bodies.map(body => body.uuid) })\<close>, then
  \<^verbatim>\<open>bodies = world.bodies.reduce((acc, body) => ({ ...acc, [body.uuid]: body }), {})\<close>.
\<close>

definition syncBodies :: "host \<Rightarrow> host" where
  "syncBodies h =
     (let h1 = h\<lparr>posted := posted h @ [Sync_message (map b_uuid (world_bodies h))]\<rparr>
      in h1\<lparr>bodies_w :=
               foldl (\<lambda>acc b. acc(b_uuid b \<mapsto> body_id b)) Map.empty (world_bodies h1)\<rparr>)"

subsection \<open>The engine's world\<close>

text \<open>\<^verbatim>\<open>world.addBody(body)\<close> for a body just created: it is pushed onto the list.\<close>

definition world_addBody :: "body \<Rightarrow> host \<Rightarrow> host" where
  "world_addBody b h = h\<lparr>world_bodies := world_bodies h @ [b]\<rparr>"

fun remove_ref :: "nat \<Rightarrow> body list \<Rightarrow> body list" where
  "remove_ref r [] = []"
| "remove_ref r (b # bs) = (if body_id b = r then bs else b # remove_ref r bs)"

text \<open>
  \<^verbatim>\<open>world.removeBody(body)\<close>: a body is spliced out at its \<^verbatim>\<open>indexOf\<close>; for
  \<^verbatim>\<open>undefined\<close> the engine decides whether it throws, and removes nothing.
\<close>

definition world_removeBody :: "engine \<Rightarrow> nat option \<Rightarrow> host \<Rightarrow> host \<times> error option" where
  "world_removeBody eng obj h =
     (case obj of
        None \<Rightarrow> (h, removeBody_undefined eng)
      | Some r \<Rightarrow> (h\<lparr>world_bodies := remove_ref r (world_bodies h)\<rparr>, None))"

text \<open>A method called on \<^verbatim>\<open>bodies[uuid]\<close>; on \<^verbatim>\<open>undefined\<close> the property access throws.\<close>

definition on_body :: "(body \<Rightarrow> body) \<Rightarrow> string \<Rightarrow> host \<Rightarrow> host \<times> error option" where
  "on_body f u h =
     (case bodies_w h u of
        None \<Rightarrow> (h, Some TypeError)
      | Some r \<Rightarrow>
          (h\<lparr>world_bodies := map (\<lambda>b. if body_id b = r then f b else b) (world_bodies h)\<rparr>,
           None))"

subsection \<open>Shapes\<close>

definition elem_at :: "jsval list \<Rightarrow> nat \<Rightarrow> jsval" where
  "elem_at xs i = (if i < length xs then xs ! i else JUndefined)"

text \<open>The elements of an iterable value; \<open>None\<close> for a value that is not iterable.\<close>

fun iterate :: "jsval \<Rightarrow> jsval list option" where
  "iterate (JArr xs) = Some xs"
| "iterate (JStr cs) = Some (map (\<lambda>ch. JStr [ch]) cs)"
| "iterate v = None"

text \<open>\<^verbatim>\<open>new Vec3(x, y, z)\<close> from the first three elements.\<close>

definition Vec3 :: "jsval list \<Rightarrow> jsval" where
  "Vec3 xs = JArr [elem_at xs 0, elem_at xs 1, elem_at xs 2]"

definition construct :: "engine \<Rightarrow> string \<Rightarrow> jsval list \<Rightarrow> error + shape option" where
  "construct eng name cargs =
     (case shape_throws eng name cargs of
        Some e \<Rightarrow> Inl e
      | None \<Rightarrow> Inr (Some (Shape name cargs)))"

text \<open>\<^verbatim>\<open>v.map(([x, y, z]) => new Vec3(x, y, z))\<close> on the elements of an array.\<close>

fun map_Vec3 :: "jsval list \<Rightarrow> error + jsval list" where
  "map_Vec3 [] = Inr []"
| "map_Vec3 (e # es) =
     (case iterate e of
        None \<Rightarrow> Inl TypeError
      | Some xyz \<Rightarrow> (case map_Vec3 es of Inl err \<Rightarrow> Inl err | Inr vs \<Rightarrow> Inr (Vec3 xyz # vs)))"

text \<open>
  The \<^verbatim>\<open>switch (type)\<close> of \<^verbatim>\<open>addBody\<close>: the shape to attach, none for a tag the switch
  does not list, or the exception thrown on the way.
\<close>

definition shape_switch :: "engine \<Rightarrow> string \<Rightarrow> jsval list \<Rightarrow> error + shape option" where
  "shape_switch eng type args =
     (if type = ''Box'' then construct eng ''Box'' [Vec3 args]
      else if type = ''ConvexPolyhedron'' then
        (case elem_at args 0 of
           JArr v \<Rightarrow>
             (case map_Vec3 v of
                Inl err \<Rightarrow> Inl err
              | Inr vs \<Rightarrow> construct eng ''ConvexPolyhedron'' [JArr vs, elem_at args 1])
         | _ \<Rightarrow> Inl TypeError)
      else if type = ''Cylinder'' then construct eng ''Cylinder'' args
      else if type = ''Heightfield'' then construct eng ''Heightfield'' args
      else if type = ''Particle'' then construct eng ''Particle'' []
      else if type = ''Plane'' then construct eng ''Plane'' []
      else if type = ''Sphere'' then construct eng ''Sphere'' args
      else if type = ''Trimesh'' then construct eng ''Trimesh'' args
      else Inr None)"

subsection \<open>task\<close>

record addBody_props =
  a_args :: "jsval list option"
  a_position :: "triplet option"
  a_rotation :: "triplet option"
  a_scale :: "triplet option"
  a_isKinematic :: bool
  a_extra :: "(string \<times> jsval) list"

record init_props =
  i_gravity :: triplet
  i_tolerance :: real
  i_step :: real
  i_iterations :: nat
  i_allowSleep :: bool
  i_broadphase :: string

text \<open>
  \<^verbatim>\<open>e.data\<close>, by operation.  A step message carries the two buffers and whatever
  \<^verbatim>\<open>props\<close> the caller put there; an \<^verbatim>\<open>addBody\<close> message may lack its \<^verbatim>\<open>props\<close>.
\<close>

datatype op_message =
    Op_init init_props
  | Op_step "real list" "real list" "stepProps option"
  | Op_addBody string string "addBody_props option"
  | Op_addBodies "string list" string "addBody_props list"
  | Op_removeBody string
  | Op_removeBodies "string list"
  | Op_setPosition string triplet
  | Op_setRotation string triplet
  | Op_other string

definition triplet_or :: "triplet option \<Rightarrow> triplet \<Rightarrow> triplet" where
  "triplet_or v d = (case v of Some t \<Rightarrow> t | None \<Rightarrow> d)"

text \<open>
  \<^verbatim>\<open>case 'addBody'\<close>.  \<open>props\<close> is \<open>None\<close> when the message has none, or
  when the batch handed over \<^verbatim>\<open>props[i]\<close> beyond the end of its list; destructuring it
  throws.
\<close>

definition addBody ::
  "engine \<Rightarrow> string \<Rightarrow> string \<Rightarrow> addBody_props option \<Rightarrow> bool \<Rightarrow> host \<Rightarrow> host \<times> error option" where
  "addBody eng u type props sync h =
     (case props of
        None \<Rightarrow> (h, Some TypeError)
      | Some p \<Rightarrow>
          (let args = (case a_args p of Some xs \<Rightarrow> xs | None \<Rightarrow> []);
               pos = triplet_or (a_position p) (0, 0, 0);
               rot = triplet_or (a_rotation p) (0, 0, 0);
               b0 = \<lparr>body_id = idCounter h, b_uuid = u, b_kinematic = a_isKinematic p,
                      b_options = a_extra p, b_shapes = [], b_position = (0, 0, 0),
                      b_quaternion = (0, 0, 0, 1)\<rparr>;
               h1 = h\<lparr>idCounter := Suc (idCounter h)\<rparr>
           in case shape_switch eng type args of
                Inl err \<Rightarrow> (h1, Some err)
              | Inr sh \<Rightarrow>
                  (let b1 = b0\<lparr>b_shapes := (case sh of Some x \<Rightarrow> [x] | None \<Rightarrow> [])\<rparr>;
                       b2 = b1\<lparr>b_position := pos\<rparr>;
                       b3 = b2\<lparr>b_quaternion :=
                                 (case rot of (rx, ry, rz) \<Rightarrow> setFromEuler eng rx ry rz)\<rparr>;
                       h2 = world_addBody b3 h1
                   in (if sync then syncBodies h2 else h2, None))))"

text \<open>\<^verbatim>\<open>case 'removeBody'\<close>\<close>

definition removeBody :: "engine \<Rightarrow> string \<Rightarrow> bool \<Rightarrow> host \<Rightarrow> host \<times> error option" where
  "removeBody eng u sync h =
     (case world_removeBody eng (bodies_w h u) h of
        (h1, Some err) \<Rightarrow> (h1, Some err)
      | (h1, None) \<Rightarrow> (if sync then syncBodies h1 else h1, None))"

text \<open>
  The loop of \<^verbatim>\<open>case 'addBodies'\<close>, from index \<open>i\<close>: each member is added by
  \<^verbatim>\<open>task(..., false)\<close>; an exception leaves the loop.
\<close>

fun addBodies_loop ::
  "engine \<Rightarrow> string \<Rightarrow> addBody_props list \<Rightarrow> string list \<Rightarrow> nat \<Rightarrow> host \<Rightarrow> host \<times> error option" where
  "addBodies_loop eng type props [] i h = (h, None)"
| "addBodies_loop eng type props (u # us) i h =
     (case addBody eng u type (if i < length props then Some (props ! i) else None) False h of
        (h1, Some err) \<Rightarrow> (h1, Some err)
      | (h1, None) \<Rightarrow> addBodies_loop eng type props us (Suc i) h1)"

text \<open>
  The loop of \<^verbatim>\<open>case 'removeBodies'\<close>: each member is removed by \<^verbatim>\<open>task(...)\<close> with
  no second argument, so \<open>sync\<close> takes its default \<open>true\<close>.
\<close>

fun removeBodies_loop :: "engine \<Rightarrow> string list \<Rightarrow> host \<Rightarrow> host \<times> error option" where
  "removeBodies_loop eng [] h = (h, None)"
| "removeBodies_loop eng (u # us) h =
     (case removeBody eng u True h of
        (h1, Some err) \<Rightarrow> (h1, Some err)
      | (h1, None) \<Rightarrow> removeBodies_loop eng us h1)"

text \<open>The buffer writes of \<^verbatim>\<open>case 'step'\<close>, from index \<open>i\<close>.\<close>

fun write_poses :: "body list \<Rightarrow> nat \<Rightarrow> real list \<times> real list \<Rightarrow> real list \<times> real list" where
  "write_poses [] i pq = pq"
| "write_poses (b # bs) i (ps, qs) =
     (case (b_position b, b_quaternion b) of
        ((px, py, pz), (qx, qy, qz, qw)) \<Rightarrow>
          write_poses bs (Suc i)
            (ps[3 * i := px, 3 * i + 1 := py, 3 * i + 2 := pz],
             qs[4 * i := qx, 4 * i + 1 := qy, 4 * i + 2 := qz, 4 * i + 3 := qw]))"

definition step :: "engine \<Rightarrow> real list \<Rightarrow> real list \<Rightarrow> host \<Rightarrow> host" where
  "step eng ps qs h =
     (let h1 = h\<lparr>world_bodies := world_step eng (config_step h) None None (world_bodies h),
                 step_calls := step_calls h @
                   [\<lparr>sc_dt = config_step h, sc_timeSinceLastCalled = None,
                     sc_maxSubSteps = None\<rparr>]\<rparr>
      in case write_poses (world_bodies h1) 0 (ps, qs) of
           (ps1, qs1) \<Rightarrow> h1\<lparr>posted := posted h1 @ [Frame_message ps1 qs1]\<rparr>)"

definition init :: "init_props \<Rightarrow> host \<Rightarrow> host" where
  "init p h =
     h\<lparr>w_broadphase := (if i_broadphase p = ''SAP'' then ''SAPBroadphase'' else ''NaiveBroadphase''),
       w_allowSleep := i_allowSleep p,
       w_gravity := i_gravity p,
       w_tolerance := i_tolerance p,
       w_iterations := i_iterations p,
       config_step := i_step p\<rparr>"

text \<open>\<^verbatim>\<open>function task(e, sync = true)\<close>; the worker runs \<^verbatim>\<open>task(e)\<close> on every message.\<close>

fun task :: "engine \<Rightarrow> op_message \<Rightarrow> bool \<Rightarrow> host \<Rightarrow> host \<times> error option" where
  "task eng (Op_init p) sync h = (init p h, None)"
| "task eng (Op_step ps qs props) sync h = (step eng ps qs h, None)"
| "task eng (Op_addBody u type p) sync h = addBody eng u type p sync h"
| "task eng (Op_addBodies us type props) sync h =
     (case addBodies_loop eng type props us 0 h of
        (h1, Some err) \<Rightarrow> (h1, Some err)
      | (h1, None) \<Rightarrow> (syncBodies h1, None))"
| "task eng (Op_removeBody u) sync h = removeBody eng u sync h"
| "task eng (Op_removeBodies us) sync h =
     (case removeBodies_loop eng us h of
        (h1, Some err) \<Rightarrow> (h1, Some err)
      | (h1, None) \<Rightarrow> (syncBodies h1, None))"
| "task eng (Op_setPosition u p) sync h =
     on_body (\<lambda>b. b\<lparr>b_position := p\<rparr>) u h"
| "task eng (Op_setRotation u r) sync h =
     on_body (\<lambda>b. b\<lparr>b_quaternion := (case r of (rx, ry, rz) \<Rightarrow> setFromEuler eng rx ry rz)\<rparr>) u h"
| "task eng (Op_other name) sync h = (h, None)"

definition onmessage :: "engine \<Rightarrow> op_message \<Rightarrow> host \<Rightarrow> host \<times> error option" where
  "onmessage eng e h = task eng e True h"

subsection \<open>The older worker\<close>

text \<open>
  The first \<^verbatim>\<open>worker.js\<close> reads pose and scale from the message itself.  In a batch a
  member's scale is \<^verbatim>\<open>(scale && scale[i]) || [0, 0, 0]\<close>: with the default
  \<^verbatim>\<open>scale = [1, 1, 1]\<close> that is the number 1 for the first three members.
\<close>

datatype scale_value = Scale_triplet triplet | Scale_number real

datatype op_message0 =
    Op0_init triplet real real
  | Op0_step "real list" "real list"
  | Op0_addBody string string "triplet option" "triplet option" "triplet option"
      "(string \<times> jsval) list"
  | Op0_addBodies "string list" string "triplet list option" "triplet list option"
      "triplet list option" "(string \<times> jsval) list"
  | Op0_removeBody string
  | Op0_removeBodies "string list"
  | Op0_setPosition string "triplet option"
  | Op0_setRotation string "triplet option"
  | Op0_other string

text \<open>
  \<^verbatim>\<open>new Vec3(scale[0] / 2, scale[1] / 2, scale[2] / 2)\<close>; indexing a number gives
  \<^verbatim>\<open>undefined\<close>, and half of that is \<^verbatim>\<open>NaN\<close> (here \<open>JUndefined\<close>).
\<close>

definition half_extents :: "scale_value \<Rightarrow> jsval" where
  "half_extents sc =
     (case sc of
        Scale_triplet (x, y, z) \<Rightarrow> JArr [JNum (x / 2), JNum (y / 2), JNum (z / 2)]
      | Scale_number n \<Rightarrow> JArr [JUndefined, JUndefined, JUndefined])"

text \<open>
  The older \<^verbatim>\<open>switch (type)\<close>.  The branch for \<^verbatim>\<open>'Convex'\<close> and
  \<^verbatim>\<open>'ConvexPolyhedron'\<close> ends in \<^verbatim>\<open>body.addmesh(...)\<close>, which no \<^verbatim>\<open>Body\<close> has (and reads
  \<^verbatim>\<open>mesh.vertices\<close> of a \<^verbatim>\<open>mesh\<close> that defaults to \<^verbatim>\<open>null\<close>): it always throws.
\<close>

definition shape_switch0 :: "engine \<Rightarrow> string \<Rightarrow> scale_value \<Rightarrow> error + shape option" where
  "shape_switch0 eng type sc =
     (if type = ''Plane'' then construct eng ''Plane'' []
      else if type = ''Box'' then construct eng ''Box'' [half_extents sc]
      else if type = ''Convex'' \<or> type = ''ConvexPolyhedron'' then Inl TypeError
      else Inr None)"

definition addBody0 ::
  "engine \<Rightarrow> string \<Rightarrow> string \<Rightarrow> triplet \<Rightarrow> triplet \<Rightarrow> scale_value \<Rightarrow> (string \<times> jsval) list \<Rightarrow>
     bool \<Rightarrow> host \<Rightarrow> host \<times> error option" where
  "addBody0 eng u type pos rot sc props sync h =
     (let b0 = \<lparr>body_id = idCounter h, b_uuid = u, b_kinematic = False, b_options = props,
                 b_shapes = [], b_position = (0, 0, 0), b_quaternion = (0, 0, 0, 1)\<rparr>;
          h1 = h\<lparr>idCounter := Suc (idCounter h)\<rparr>
      in case shape_switch0 eng type sc of
           Inl err \<Rightarrow> (h1, Some err)
         | Inr sh \<Rightarrow>
             (let b1 = b0\<lparr>b_shapes := (case sh of Some x \<Rightarrow> [x] | None \<Rightarrow> [])\<rparr>;
                  b2 = b1\<lparr>b_position := pos\<rparr>;
                  b3 = b2\<lparr>b_quaternion :=
                            (case rot of (rx, ry, rz) \<Rightarrow> setFromEuler eng rx ry rz)\<rparr>;
                  h2 = world_addBody b3 h1
              in (if sync then syncBodies h2 else h2, None)))"

text \<open>\<^verbatim>\<open>(position && position[i]) || [0, 0, 0]\<close> for a list of triplets or no list.\<close>

definition member_triplet :: "triplet list option \<Rightarrow> nat \<Rightarrow> triplet" where
  "member_triplet v i =
     (case v of
        Some ts \<Rightarrow> (if i < length ts then ts ! i else (0, 0, 0))
      | None \<Rightarrow> (0, 0, 0))"

definition member_scale :: "triplet list option \<Rightarrow> nat \<Rightarrow> scale_value" where
  "member_scale v i =
     (case v of
        Some ts \<Rightarrow> Scale_triplet (if i < length ts then ts ! i else (0, 0, 0))
      | None \<Rightarrow> (if i < 3 then Scale_number 1 else Scale_triplet (0, 0, 0)))"

fun addBodies_loop0 ::
  "engine \<Rightarrow> string \<Rightarrow> triplet list option \<Rightarrow> triplet list option \<Rightarrow> triplet list option \<Rightarrow>
     (string \<times> jsval) list \<Rightarrow> string list \<Rightarrow> nat \<Rightarrow> host \<Rightarrow> host \<times> error option" where
  "addBodies_loop0 eng type ps rs ss props [] i h = (h, None)"
| "addBodies_loop0 eng type ps rs ss props (u # us) i h =
     (case addBody0 eng u type (member_triplet ps i) (member_triplet rs i) (member_scale ss i)
             props False h of
        (h1, Some err) \<Rightarrow> (h1, Some err)
      | (h1, None) \<Rightarrow> addBodies_loop0 eng type ps rs ss props us (Suc i) h1)"

text \<open>
  \<^verbatim>\<open>bodies[uuid].rotation.set(...)\<close>: the property access throws for an unknown identity,
  and a \<^verbatim>\<open>Body\<close> has no \<^verbatim>\<open>rotation\<close> to call \<^verbatim>\<open>set\<close> on.
\<close>

definition setRotation0 :: "string \<Rightarrow> host \<Rightarrow> host \<times> error option" where
  "setRotation0 u h = (case bodies_w h u of None \<Rightarrow> (h, Some TypeError) | Some r \<Rightarrow> (h, Some TypeError))"

fun task0 :: "engine \<Rightarrow> op_message0 \<Rightarrow> bool \<Rightarrow> host \<Rightarrow> host \<times> error option" where
  "task0 eng (Op0_init g tol st) sync h =
     (h\<lparr>w_gravity := g, w_tolerance := tol, config_step := st\<rparr>, None)"
| "task0 eng (Op0_step ps qs) sync h = (step eng ps qs h, None)"
| "task0 eng (Op0_addBody u type pos rot sc props) sync h =
     addBody0 eng u type (triplet_or pos (0, 0, 0)) (triplet_or rot (0, 0, 0))
       (Scale_triplet (triplet_or sc (1, 1, 1))) props sync h"
| "task0 eng (Op0_addBodies us type ps rs ss props) sync h =
     (case addBodies_loop0 eng type ps rs ss props us 0 h of
        (h1, Some err) \<Rightarrow> (h1, Some err)
      | (h1, None) \<Rightarrow> (syncBodies h1, None))"
| "task0 eng (Op0_removeBody u) sync h = removeBody eng u sync h"
| "task0 eng (Op0_removeBodies us) sync h =
     (case removeBodies_loop eng us h of
        (h1, Some err) \<Rightarrow> (h1, Some err)
      | (h1, None) \<Rightarrow> (syncBodies h1, None))"
| "task0 eng (Op0_setPosition u p) sync h =
     on_body (\<lambda>b. b\<lparr>b_position := triplet_or p (0, 0, 0)\<rparr>) u h"
| "task0 eng (Op0_setRotation u r) sync h = setRotation0 u h"
| "task0 eng (Op0_other name) sync h = (h, None)"

subsection \<open>The tags each switch lists\<close>





section \<open>The render loop\<close>

text \<open>
  \<^verbatim>\<open>loop\<close> of the Provider, with the variable \<^verbatim>\<open>timeSinceLastCalled\<close> it closes over:
  unless paused it adds the frame's \<open>delta\<close>, calls \<^verbatim>\<open>worker.step\<close> and resets the
  variable.
\<close>

definition loop :: "bool \<Rightarrow> nat \<Rightarrow> real \<Rightarrow> real \<Rightarrow> real \<times> ctx \<Rightarrow> real \<times> ctx" where
  "loop isPaused maxSub stepSz delta st =
     (case st of (elapsed, c) \<Rightarrow>
        if isPaused then (elapsed, c)
        else (0, c\<lparr>api_calls := api_calls c @
                      [Api_step \<lparr>maxSubSteps = maxSub, stepSize = stepSz,
                                 timeSinceLastCalled = elapsed + delta\<rparr>]\<rparr>))"

section \<open>The host behind worker.step\<close>

text \<open>
  Modelled from the spec: the host that receives the \<^verbatim>\<open>step\<close> operation of the
  \<^verbatim>\<open>CannonWorkerAPI\<close> (package \<^verbatim>\<open>@pmndrs/cannon-worker-api\<close>) is not among the sources;
  only its caller, the Provider's loop, is.  The spec's words: the operation advances
  the world by a variable elapsed time using a fixed-step accumulator with a cap on
  catch-up sub-steps.  \<open>catch_up h m acc\<close> runs the accumulator holding \<open>acc\<close>:
  while it holds at least one step \<open>h\<close> and fewer than \<open>m\<close> sub-steps were made, one
  sub-step is made and \<open>h\<close> is taken from it.  The result is the number of sub-steps
  and what the accumulator still holds.
\<close>

fun catch_up :: "real \<Rightarrow> nat \<Rightarrow> real \<Rightarrow> nat \<times> real" where
  "catch_up h 0 acc = (0, acc)"
| "catch_up h (Suc m) acc =
     (if h \<le> acc
      then (Suc (fst (catch_up h m (acc - h))), snd (catch_up h m (acc - h)))
      else (0, acc))"

text \<open>
  Modelled from the spec: the part of that host's state the \<^verbatim>\<open>step\<close> operation is
  about, namely the accumulator, the simulated time the world has been advanced by, and
  the number of fixed sub-steps made so far.
\<close>

record stepper =
  accumulator :: real
  world_time :: real
  substeps :: nat

text \<open>
  Modelled from the spec: \<^verbatim>\<open>step({timeSinceLastCalled, stepSize, maxSubSteps})\<close> on that
  host.  The elapsed time goes into the accumulator, which is then run under the cap;
  every sub-step advances the world by \<open>stepSize\<close>.
\<close>

definition host_step :: "stepProps \<Rightarrow> stepper \<Rightarrow> stepper" where
  "host_step p s =
     (case catch_up (stepSize p) (maxSubSteps p) (accumulator s + timeSinceLastCalled p) of
        (n, rest) \<Rightarrow>
          s\<lparr>accumulator := rest,
            world_time := world_time s + real n * stepSize p,
            substeps := substeps s + n\<rparr>)"

text \<open>
  Modelled from the spec: that host receiving a call made on the \<^verbatim>\<open>CannonWorkerAPI\<close>;
  only \<^verbatim>\<open>step\<close> concerns the stepper.
\<close>

definition receive :: "api_call \<Rightarrow> stepper \<Rightarrow> stepper" where
  "receive call s = (case call of Api_step p \<Rightarrow> host_step p s | _ \<Rightarrow> s)"

section \<open>Body hooks\<close>

text \<open>\<^verbatim>\<open>new Object3D()\<close> with the identity the runtime generates for it.\<close>

definition new_Object3D :: "string \<Rightarrow> object3D" where
  "new_Object3D u =
     \<lparr>uuid = u, userData = JObj, position = (0, 0, 0), rotation = (0, 0, 0), scale = s_one,
       matrix = Identity, matrixAutoUpdate = True, instanced = None\<rparr>"

fun truthy :: "jsval \<Rightarrow> bool" where
  "truthy JUndefined = False"
| "truthy JNull = False"
| "truthy (JNum x) = (x \<noteq> 0)"
| "truthy (JBool b) = b"
| "truthy (JStr cs) = (cs \<noteq> [])"
| "truthy (JArr xs) = True"
| "truthy JObj = True"

text \<open>\<^verbatim>\<open>prepare(object, props)\<close>; \<^verbatim>\<open>updateMatrix()\<close> builds the matrix from the pose.\<close>

definition prepare :: "object3D \<Rightarrow> bodyProps \<Rightarrow> object3D" where
  "prepare ob props =
     (let ob1 = ob\<lparr>userData :=
                  (case p_userData props of
                     Some d \<Rightarrow> (if truthy d then d else JObj)
                   | None \<Rightarrow> JObj)\<rparr>;
          ob2 = ob1\<lparr>position := triplet_or (p_position props) (0, 0, 0)\<rparr>;
          ob3 = ob2\<lparr>rotation := triplet_or (p_rotation props) (0, 0, 0)\<rparr>
      in ob3\<lparr>matrix := FromPose (position ob3) (rotation ob3) (scale ob3)\<rparr>)"

text \<open>
  \<^verbatim>\<open>const temp = new Object3D()\<close>: every \<^verbatim>\<open>prepare(temp, props)\<close> overwrites what an
  earlier one left in it, and nothing writes its scale.
\<close>

definition temp :: object3D where
  "temp = new_Object3D []"

text \<open>\<^verbatim>\<open>setupCollision(events, props, uuid)\<close>\<close>

definition setupCollision ::
  "(string \<times> event_record) list \<Rightarrow> bodyProps \<Rightarrow> string \<Rightarrow> (string \<times> event_record) list" where
  "setupCollision evs props u =
     AList.update u
       \<lparr>collide = onCollide props, collideBegin = onCollideBegin props,
         collideEnd = onCollideEnd props, rayhit = None\<rparr> evs"

text \<open>
  What the callback of \<^verbatim>\<open>uuid.map\<close> does before it calls \<^verbatim>\<open>argsFn\<close>, for the handle at
  reference \<open>r\<close> (without a debug context).
\<close>

definition member_effects :: "(nat \<Rightarrow> bodyProps) \<Rightarrow> nat \<Rightarrow> string \<Rightarrow> nat \<Rightarrow> ctx \<Rightarrow> ctx" where
  "member_effects fn r ident i c =
     (let props = fn i;
          c1 = (case objects c r of
                  None \<Rightarrow> c
                | Some ob \<Rightarrow>
                    (case instanced ob of
                       Some im \<Rightarrow>
                         c\<lparr>objects := (objects c)(r \<mapsto>
                              ob\<lparr>instanced := Some (needsUpdate_true
                                    (setMatrixAt i (matrix (prepare temp props)) im))\<rparr>)\<rparr>
                     | None \<Rightarrow> c\<lparr>objects := (objects c)(r \<mapsto> prepare ob props)\<rparr>));
          c2 = c1\<lparr>refs := AList.update ident r (refs c1)\<rparr>
      in c2\<lparr>events := setupCollision (events c2) props ident\<rparr>)"

text \<open>
  \<^verbatim>\<open>uuid.map((id, i) => { ...; return { ...props, args: argsFn(props.args) } })\<close> from
  index \<open>i\<close>: the descriptors with their converted arguments, or the exception
  \<^verbatim>\<open>argsFn\<close> threw, which ends the map.
\<close>

fun members ::
  "(jsval \<Rightarrow> error + jsval) \<Rightarrow> (nat \<Rightarrow> bodyProps) \<Rightarrow> nat \<Rightarrow> string list \<Rightarrow> nat \<Rightarrow> ctx \<Rightarrow>
     ctx \<times> (error + (bodyProps \<times> jsval) list)" where
  "members argsFn fn r [] i c = (c, Inr [])"
| "members argsFn fn r (ident # idents) i c =
     (let c1 = member_effects fn r ident i c
      in case argsFn (p_args (fn i)) of
           Inl err \<Rightarrow> (c1, Inl err)
         | Inr a \<Rightarrow>
             (case members argsFn fn r idents (Suc i) c1 of
                (c2, Inl err) \<Rightarrow> (c2, Inl err)
              | (c2, Inr ps) \<Rightarrow> (c2, Inr ((fn i, a) # ps))))"

text \<open>
  \<^verbatim>\<open>({ onCollide, onCollideBegin, onCollideEnd, ...serializableProps }) =>
  ({ onCollide: Boolean(onCollide), ...serializableProps })\<close>
\<close>

definition serializable :: "bodyProps \<times> jsval \<Rightarrow> serializableProps" where
  "serializable pa =
     (case pa of (props, a) \<Rightarrow>
        \<lparr>s_args = a, s_position = p_position props, s_rotation = p_rotation props,
          s_userData = p_userData props, s_onCollide = (onCollide props \<noteq> None)\<rparr>)"

text \<open>\<open>ref.current\<close> as an object of the store; a reference the store does not hold is
  \<^verbatim>\<open>null\<close>.\<close>

definition deref :: "ctx \<Rightarrow> nat option \<Rightarrow> (nat \<times> object3D) option" where
  "deref c current =
     (case current of
        None \<Rightarrow> None
      | Some r \<Rightarrow> (case objects c r of None \<Rightarrow> None | Some ob \<Rightarrow> Some (r, ob)))"

definition objectCount :: "object3D \<Rightarrow> nat" where
  "objectCount ob = (case instanced ob of Some im \<Rightarrow> count im | None \<Rightarrow> 1)"

definition body_uuids :: "object3D \<Rightarrow> string list" where
  "body_uuids ob =
     (case instanced ob of
        Some im \<Rightarrow> map (replica_uuid (uuid ob)) [0..<objectCount ob]
      | None \<Rightarrow> [uuid ob])"

text \<open>
  The layout effect of \<^verbatim>\<open>useBody(type, fn, argsFn, fwdRef, deps)\<close>, up to the call of
  \<^verbatim>\<open>addBodies\<close> (the usage hint set on an instanced mesh's buffer is not part of the
  model).  \<open>stub\<close> is the reference and the identity of the \<^verbatim>\<open>Object3D\<close> the
  effect creates when the ref is empty.  The result is \<open>ref.current\<close>, the context, and
  the exception if one was thrown.
\<close>

definition useBody ::
  "string \<Rightarrow> (nat \<Rightarrow> bodyProps) \<Rightarrow> (jsval \<Rightarrow> error + jsval) \<Rightarrow> nat option \<Rightarrow> nat \<times> string \<Rightarrow> ctx \<Rightarrow>
     nat option \<times> ctx \<times> error option" where
  "useBody type fn argsFn current stub c =
     (let (r, ob, c1) =
            (case deref c current of
               Some (r, ob) \<Rightarrow> (r, ob, c)
             | None \<Rightarrow>
                 (fst stub, new_Object3D (snd stub),
                  c\<lparr>objects := (objects c)(fst stub \<mapsto> new_Object3D (snd stub))\<rparr>));
          idents = body_uuids ob
      in case members argsFn fn r idents 0 c1 of
           (c2, Inl err) \<Rightarrow> (Some r, c2, Some err)
         | (c2, Inr ps) \<Rightarrow>
             (Some r,
              c2\<lparr>api_calls := api_calls c2 @ [Api_addBodies (map serializable ps) type idents]\<rparr>,
              None))"

subsection \<open>The shape constructors\<close>






text \<open>
  \<^verbatim>\<open>(args: SphereArgs = [1]): SphereArgs => {
    if (!Array.isArray(args)) throw new Error('useSphere args must be an array')
    return [args[0]] }\<close>
\<close>

definition useSphere_args :: "jsval \<Rightarrow> error + jsval" where
  "useSphere_args a =
     (case (if a = JUndefined then JArr [JNum 1] else a) of
        JArr xs \<Rightarrow> Inr (JArr [elem_at xs 0])
      | _ \<Rightarrow> Inl (Error ''useSphere args must be an array''))"






definition useSphere where "useSphere fn = useBody ''Sphere'' fn useSphere_args"





section \<open>Invariants used in the proofs\<close>

text \<open>A subscription id that was handed out and is no longer in the table.\<close>

definition orphaned :: "nat \<Rightarrow> ctx \<Rightarrow> bool" where
  "orphaned sid c \<longleftrightarrow> subscriptions c sid = None \<and> sid < incrementingId c"

text \<open>The state of an instanced handle after \<open>k\<close> visits.\<close>

definition visited :: "(string \<rightharpoonup> nat) \<Rightarrow> real list \<Rightarrow> real list \<Rightarrow> nat \<Rightarrow> object3D \<Rightarrow> instancedMesh \<Rightarrow> object3D \<Rightarrow> bool" where
  "visited reg ps qs k ob im ob' \<longleftrightarrow>
     uuid ob' = uuid ob \<and>
     (\<exists>im'. instanced ob' = Some im' \<and> count im' = count im \<and>
        version im' = version im + k * count im \<and>
        length (instanceMatrix im') = length (instanceMatrix im) \<and>
        (\<forall>j < length (instanceMatrix im).
           instanceMatrix im' ! j =
             (if 0 < k \<and> j < count im \<and> reg (replica_uuid (uuid ob) j) \<noteq> None
              then fst (apply_fn (reg (replica_uuid (uuid ob) j)) ps qs None)
              else instanceMatrix im ! j)))"

section \<open>Example states\<close>

definition ctx0 :: ctx where
  "ctx0 = \<lparr>bodies_current = Map.empty, refs = [], objects = Map.empty, events = [],
            subscriptions = Map.empty, incrementingId = 0, api_calls = [], calls = [],
            invalidations = 0\<rparr>"

definition mesh2 :: object3D where
  "mesh2 = \<lparr>uuid = ''m'', userData = JObj, position = (0, 0, 0), rotation = (0, 0, 0),
             scale = s_one, matrix = Identity, matrixAutoUpdate = True,
             instanced = Some \<lparr>count = 2, instanceMatrix = [Identity, Identity], version = 0\<rparr>\<rparr>"

definition box1 :: object3D where
  "box1 = \<lparr>uuid = ''a'', userData = JObj, position = (0, 0, 0), rotation = (0, 0, 0),
            scale = s_one, matrix = Identity, matrixAutoUpdate = True, instanced = None\<rparr>"

text \<open>A scene with one plain handle and one instanced handle of two replicas, which
  \<open>refs\<close> names under one key per replica, both keys naming the same object.\<close>

definition ctx_scene :: ctx where
  "ctx_scene = ctx0\<lparr>refs := [(''a'', 0), (''m/0'', 1), (''m/1'', 1)],
                     objects := [0 \<mapsto> box1, 1 \<mapsto> mesh2],
                     subscriptions := [0 \<mapsto> [''position'' \<mapsto> Callback ''onPosition'']],
                     incrementingId := 1\<rparr>"

definition frame_of :: "bool \<Rightarrow> string list \<Rightarrow> frame_message" where
  "frame_of a us = \<lparr>active = a, bodies = Some us,
                     observations = [(0, JArr [JNum 1, JNum 2, JNum 3], ''position'')],
                     positions = [1, 2, 3, 4, 5, 6, 7, 8, 9],
                     quaternions = [0, 0, 0, 1, 0, 0, 0, 1, 0, 0, 0, 1]\<rparr>"

text \<open>
  An engine for the examples: no constructor throws, bodies stay where they are in a
  step, a rotation by zero angles is the identity quaternion, and
  \<^verbatim>\<open>removeBody(undefined)\<close> throws.
\<close>

definition engine0 :: engine where
  "engine0 = \<lparr>shape_throws = (\<lambda>name cargs. None),
               setFromEuler = (\<lambda>x y z.
                 (sin (x / 2) * cos (y / 2) * cos (z / 2) + cos (x / 2) * sin (y / 2) * sin (z / 2),
                  cos (x / 2) * sin (y / 2) * cos (z / 2) - sin (x / 2) * cos (y / 2) * sin (z / 2),
                  cos (x / 2) * cos (y / 2) * sin (z / 2) + sin (x / 2) * sin (y / 2) * cos (z / 2),
                  cos (x / 2) * cos (y / 2) * cos (z / 2) - sin (x / 2) * sin (y / 2) * sin (z / 2))),
               world_step = (\<lambda>dt elapsed cap bs. bs),
               removeBody_undefined = Some TypeError\<rparr>"

text \<open>The worker's globals when the script has loaded.\<close>

definition host0 :: host where
  "host0 = \<lparr>world_bodies = [], idCounter = 0, bodies_w = Map.empty, config_step = 1 / 60,
             w_gravity = (0, 0, 0), w_tolerance = 1 / 10000000, w_iterations = 10,
             w_allowSleep = False, w_broadphase = ''NaiveBroadphase'', step_calls = [],
             posted = []\<rparr>"

definition props0 :: addBody_props where
  "props0 = \<lparr>a_args = None, a_position = None, a_rotation = None, a_scale = None,
              a_isKinematic = False, a_extra = []\<rparr>"


definition stepper0 :: stepper where
  "stepper0 = \<lparr>accumulator = 0, world_time = 0, substeps = 0\<rparr>"

definition stall :: "real \<Rightarrow> stepProps" where
  "stall t = \<lparr>maxSubSteps = 10, stepSize = 1 / 60, timeSinceLastCalled = t\<rparr>"



text \<open>The worker after a batch has added two bodies.\<close>

definition host_ab :: host where
  "host_ab = fst (onmessage engine0 (Op_addBodies [''a'', ''b''] ''Sphere'' [props0, props0]) host0)"

section \<open>The identity-to-index registry\<close>

lemma index_bodies_notin: "u \<notin> set us \<Longrightarrow> index_bodies us i reg u = reg u"
  by (induction us arbitrary: i reg) auto

lemma index_bodies_nth:
  "distinct us \<Longrightarrow> k < length us \<Longrightarrow> index_bodies us i reg (us ! k) = Some (i + k)"
proof (induction us arbitrary: k i reg)
  case Nil
  then show ?case by simp
next
  case (Cons u us)
  show ?case
  proof (cases k)
    case 0
    with Cons.prems show ?thesis by (simp add: index_bodies_notin)
  next
    case (Suc j)
    have "index_bodies us (Suc i) (reg(u \<mapsto> i)) (us ! j) = Some (Suc i + j)"
      by (rule Cons.IH) (use Cons.prems Suc in auto)
    with Suc show ?thesis by simp
  qed
qed

lemma indexOf_nth: "distinct us \<Longrightarrow> k < length us \<Longrightarrow> indexOf us (us ! k) = int k"
proof (induction us arbitrary: k)
  case Nil
  then show ?case by simp
next
  case (Cons u us)
  show ?case
  proof (cases k)
    case 0
    then show ?thesis by simp
  next
    case (Suc j)
    with Cons.prems have "u \<noteq> us ! j" by auto
    with Suc Cons.prems Cons.IH [of j] show ?thesis by (simp add: Let_def)
  qed
qed

lemma foldl_upd_notin:
  "u \<notin> set xs \<Longrightarrow> foldl (\<lambda>acc i. acc(i \<mapsto> f i)) acc0 xs u = acc0 u"
  by (induction xs arbitrary: acc0)
    (auto simp del: fun_upd_apply simp add: fun_upd_same fun_upd_other)

lemma foldl_upd_in:
  "u \<in> set xs \<Longrightarrow> foldl (\<lambda>acc i. acc(i \<mapsto> f i)) acc0 xs u = Some (f u)"
proof (induction xs arbitrary: acc0)
  case Nil
  then show ?case by simp
next
  case (Cons x xs)
  show ?case
  proof (cases "u \<in> set xs")
    case True
    then show ?thesis
      using Cons.IH by (simp del: fun_upd_apply add: fun_upd_same fun_upd_other)
  next
    case False
    with Cons.prems have ux: "u = x" by simp
    have "foldl (\<lambda>acc i. acc(i \<mapsto> f i)) (acc0(x \<mapsto> f x)) xs u = (acc0(x \<mapsto> f x)) u"
      by (rule foldl_upd_notin) (rule False)
    with ux show ?thesis by (simp del: fun_upd_apply add: fun_upd_same fun_upd_other)
  qed
qed

lemma sync_handler_in: "u \<in> set ids \<Longrightarrow> sync_handler ids u = Some (indexOf ids u)"
  by (simp add: sync_handler_def foldl_upd_in)

lemma sync_handler_notin: "u \<notin> set ids \<Longrightarrow> sync_handler ids u = None"
  by (simp add: sync_handler_def foldl_upd_notin)

lemma dom_sync_handler: "dom (sync_handler ids) = set ids"
  by (auto simp: dom_def sync_handler_in sync_handler_notin intro: ccontr)

lemma bodies_current_frame:
  "bodies_current (frameHandler si msg c) =
     index_bodies (case bodies msg of Some us \<Rightarrow> us | None \<Rightarrow> []) 0 (bodies_current c)"
  by (simp add: frameHandler_def Let_def)

text \<open>What the frame path does with identities the frame does not list: it keeps them.\<close>

lemma frame_keeps_unlisted:
  "bodies msg = Some ids \<Longrightarrow> u \<notin> set ids \<Longrightarrow>
     bodies_current (frameHandler si msg c) u = bodies_current c u"
  by (simp add: bodies_current_frame index_bodies_notin)

lemma bij_betw_positions:
  assumes "distinct us" and "\<And>k. k < length us \<Longrightarrow> f (us ! k) = g k" and "inj g"
  shows "bij_betw f (set us) (g ` {0..<length us})"
  unfolding bij_betw_def
proof
  show "inj_on f (set us)"
  proof (rule inj_onI)
    fix x y assume "x \<in> set us" "y \<in> set us" "f x = f y"
    then obtain a b where ab: "a < length us" "us ! a = x" "b < length us" "us ! b = y"
      by (auto simp: in_set_conv_nth)
    with assms(2) \<open>f x = f y\<close> have "g a = g b" by metis
    with assms(3) have "a = b" by (simp add: inj_eq)
    with ab show "x = y" by simp
  qed
  show "f ` set us = g ` {0..<length us}"
  proof
    show "f ` set us \<subseteq> g ` {0..<length us}"
      using assms(2) by (auto simp: in_set_conv_nth)
    show "g ` {0..<length us} \<subseteq> f ` set us"
    proof
      fix y assume "y \<in> g ` {0..<length us}"
      then obtain k where "k < length us" "y = g k" by auto
      with assms(2) have "y = f (us ! k)" by simp
      with \<open>k < length us\<close> show "y \<in> f ` set us" by auto
    qed
  qed
qed

text \<open>
  C2 (as amended).  Identities are unique, so the list a sync or a frame carries has no
  duplicates.  Applying a sync rebuilds the registry from nothing: its keys are exactly
  the listed identities, the identity at position \<open>k\<close> maps to \<open>k\<close>, and the map is a
  bijection from the listed identities onto \<open>[0, n)\<close>.  Applying a frame's body list
  gives every listed identity its position, so the registry maps the listed identities
  bijectively onto \<open>[0, n)\<close>.
\<close>

theorem registry_bijection:
  "distinct ids \<Longrightarrow> bodies msg = Some ids \<Longrightarrow>
     dom (sync_handler ids) = set ids \<and>
     (\<forall>k < length ids. sync_handler ids (ids ! k) = Some (int k)) \<and>
     bij_betw (\<lambda>u. the (sync_handler ids u)) (set ids) (int ` {0..<length ids}) \<and>
     (\<forall>k < length ids. bodies_current (frameHandler si msg c) (ids ! k) = Some k) \<and>
     bij_betw (\<lambda>u. the (bodies_current (frameHandler si msg c) u)) (set ids) {0..<length ids}"
proof -
  assume d: "distinct ids" and m: "bodies msg = Some ids"
  have a: "\<And>k. k < length ids \<Longrightarrow> sync_handler ids (ids ! k) = Some (int k)"
    using d by (simp add: sync_handler_in indexOf_nth)
  have b: "\<And>k. k < length ids \<Longrightarrow>
     bodies_current (frameHandler si msg c) (ids ! k) = Some k"
    using d m by (simp add: bodies_current_frame index_bodies_nth)
  have c1: "bij_betw (\<lambda>u. the (sync_handler ids u)) (set ids) (int ` {0..<length ids})"
    by (rule bij_betw_positions [OF d]) (simp_all add: a)
  have c2: "bij_betw (\<lambda>u. the (bodies_current (frameHandler si msg c) u))
       (set ids) ((\<lambda>k. k) ` {0..<length ids})"
    by (rule bij_betw_positions [OF d]) (simp_all add: b)
  from a b c1 c2 show ?thesis by (simp add: dom_sync_handler)
qed

theorem registry_bijection_witness:
  "distinct [''a'', ''m/0'', ''m/1''] \<and>
   bodies (frame_of True [''a'', ''m/0'', ''m/1'']) = Some [''a'', ''m/0'', ''m/1''] \<and>
   dom (sync_handler [''a'', ''m/0'', ''m/1'']) = {''a'', ''m/0'', ''m/1''} \<and>
   sync_handler [''a'', ''m/0'', ''m/1''] ''m/1'' = Some 2 \<and>
   bodies_current (frameHandler True (frame_of True [''a'', ''m/0'', ''m/1'']) ctx_scene) ''m/1''
     = Some 2"
proof -
  have d: "distinct [''a'', ''m/0'', ''m/1'']" by simp
  have m: "bodies (frame_of True [''a'', ''m/0'', ''m/1'']) = Some [''a'', ''m/0'', ''m/1'']"
    by (simp add: frame_of_def)
  from registry_bijection [OF d m, of True ctx_scene]
  have "dom (sync_handler [''a'', ''m/0'', ''m/1'']) = set [''a'', ''m/0'', ''m/1'']"
    and "\<forall>k < length [''a'', ''m/0'', ''m/1''].
           sync_handler [''a'', ''m/0'', ''m/1''] ([''a'', ''m/0'', ''m/1''] ! k) = Some (int k)"
    and "\<forall>k < length [''a'', ''m/0'', ''m/1''].
           bodies_current (frameHandler True (frame_of True [''a'', ''m/0'', ''m/1'']) ctx_scene)
             ([''a'', ''m/0'', ''m/1''] ! k) = Some k"
    by blast+
  from this(1) this(2) [rule_format, of 2] this(3) [rule_format, of 2] d m
  show ?thesis by simp
qed

text \<open>
  The claim as stated fails on the frame path: after a frame listing \<open>a, b\<close> and then a
  frame listing only \<open>b\<close> (\<open>a\<close> was removed, one body is left), the registry still
  holds an entry for \<open>a\<close>, and \<open>a\<close> and \<open>b\<close> share index 0.
\<close>

theorem frame_registry_keeps_removed_identity:
  "bodies_current
     (frameHandler True (frame_of False [''b''])
        (frameHandler True (frame_of False [''a'', ''b'']) ctx0)) ''a'' = Some 0 \<and>
   bodies_current
     (frameHandler True (frame_of False [''b''])
        (frameHandler True (frame_of False [''a'', ''b'']) ctx0)) ''b'' = Some 0"
  by (simp add: bodies_current_frame frame_of_def ctx0_def)

section \<open>Frames that find the world asleep\<close>

text \<open>
  C3.  A frame with \<open>active = false\<close> writes no handle: the store of handles (every
  matrix, every replica slot, every dirty counter) and the table of references are what
  they were, and \<^verbatim>\<open>invalidate()\<close> is not called, whatever \<open>shouldInvalidate\<close> says.
\<close>

theorem frame_inactive_no_write:
  "\<not> active msg \<Longrightarrow>
     objects (frameHandler shouldInvalidate msg c) = objects c \<and>
     refs (frameHandler shouldInvalidate msg c) = refs c \<and>
     invalidations (frameHandler shouldInvalidate msg c) = invalidations c"
  by (simp add: frameHandler_def Let_def)

theorem frame_inactive_no_write_witness:
  "\<not> active (frame_of False [''a'', ''m/0'', ''m/1'']) \<and>
   objects (frameHandler True (frame_of False [''a'', ''m/0'', ''m/1'']) ctx_scene)
     = objects ctx_scene \<and>
   invalidations (frameHandler True (frame_of False [''a'', ''m/0'', ''m/1'']) ctx_scene) = 0"
proof -
  have h: "\<not> active (frame_of False [''a'', ''m/0'', ''m/1''])"
    by (simp add: frame_of_def)
  from frame_inactive_no_write [OF h, of True ctx_scene] h show ?thesis
    by (simp add: ctx_scene_def ctx0_def)
qed

section \<open>Replicated handles\<close>

lemma string_of_nat_digit: "n < 10 \<Longrightarrow> string_of_nat n = [digit n]"
  by (simp add: string_of_nat.simps)

lemma replica_step_fields:
  "count (replica_step reg ps qs u i im) = count im"
  "version (replica_step reg ps qs u i im) = Suc (version im)"
  "length (instanceMatrix (replica_step reg ps qs u i im)) = length (instanceMatrix im)"
  by (simp_all add: replica_step_def setMatrixAt_def needsUpdate_true_def Let_def
      split: option.splits)

lemma replica_step_slot:
  "j < length (instanceMatrix im) \<Longrightarrow>
   instanceMatrix (replica_step reg ps qs u i im) ! j =
     (if j = i \<and> reg (replica_uuid u i) \<noteq> None
      then fst (apply_fn (reg (replica_uuid u i)) ps qs None)
      else instanceMatrix im ! j)"
  by (auto simp: replica_step_def setMatrixAt_def needsUpdate_true_def Let_def
      split: option.splits)

lemma replica_loop_fields:
  "count (fold (replica_step reg ps qs u) [0..<n] im) = count im \<and>
   version (fold (replica_step reg ps qs u) [0..<n] im) = version im + n \<and>
   length (instanceMatrix (fold (replica_step reg ps qs u) [0..<n] im)) =
     length (instanceMatrix im)"
  by (induction n) (simp_all add: replica_step_fields)

lemma replica_loop_slot:
  "j < length (instanceMatrix im) \<Longrightarrow>
   instanceMatrix (fold (replica_step reg ps qs u) [0..<n] im) ! j =
     (if j < n \<and> reg (replica_uuid u j) \<noteq> None
      then fst (apply_fn (reg (replica_uuid u j)) ps qs None)
      else instanceMatrix im ! j)"
proof (induction n)
  case 0
  then show ?case by simp
next
  case (Suc n)
  let ?im = "fold (replica_step reg ps qs u) [0..<n] im"
  have len: "j < length (instanceMatrix ?im)"
    using Suc.prems by (simp add: replica_loop_fields)
  have "instanceMatrix (fold (replica_step reg ps qs u) [0..<Suc n] im) ! j =
        instanceMatrix (replica_step reg ps qs u n ?im) ! j"
    by simp
  also have "\<dots> = (if j = n \<and> reg (replica_uuid u n) \<noteq> None
      then fst (apply_fn (reg (replica_uuid u n)) ps qs None)
      else instanceMatrix ?im ! j)"
    by (rule replica_step_slot [OF len])
  finally show ?case using Suc.IH [OF Suc.prems] by (auto simp: less_Suc_eq)
qed

lemma visited_0: "instanced ob = Some im \<Longrightarrow> visited reg ps qs 0 ob im ob"
  by (simp add: visited_def)

lemma visited_Suc:
  assumes "visited reg ps qs k ob im ob'"
  shows "visited reg ps qs (Suc k) ob im (visit_handle reg ps qs ob')"
proof -
  from assms obtain im' where u: "uuid ob' = uuid ob" and i: "instanced ob' = Some im'"
    and c: "count im' = count im" and v: "version im' = version im + k * count im"
    and l: "length (instanceMatrix im') = length (instanceMatrix im)"
    and s: "\<forall>j < length (instanceMatrix im).
           instanceMatrix im' ! j =
             (if 0 < k \<and> j < count im \<and> reg (replica_uuid (uuid ob) j) \<noteq> None
              then fst (apply_fn (reg (replica_uuid (uuid ob) j)) ps qs None)
              else instanceMatrix im ! j)"
    unfolding visited_def by blast
  let ?im = "fold (replica_step reg ps qs (uuid ob)) [0..<count im] im'"
  have vh: "visit_handle reg ps qs ob' = ob'\<lparr>instanced := Some ?im\<rparr>"
    by (simp add: visit_handle_def i u c)
  have f: "count ?im = count im" "version ?im = version im + Suc k * count im"
    "length (instanceMatrix ?im) = length (instanceMatrix im)"
    using replica_loop_fields [of reg ps qs "uuid ob" "count im" im'] by (simp_all add: c v l)
  have sl: "\<forall>j < length (instanceMatrix im).
           instanceMatrix ?im ! j =
             (if j < count im \<and> reg (replica_uuid (uuid ob) j) \<noteq> None
              then fst (apply_fn (reg (replica_uuid (uuid ob) j)) ps qs None)
              else instanceMatrix im ! j)"
  proof (intro allI impI)
    fix j assume j: "j < length (instanceMatrix im)"
    then have "j < length (instanceMatrix im')" by (simp add: l)
    from replica_loop_slot [OF this, of reg ps qs "uuid ob" "count im"] s j
    show "instanceMatrix ?im ! j =
             (if j < count im \<and> reg (replica_uuid (uuid ob) j) \<noteq> None
              then fst (apply_fn (reg (replica_uuid (uuid ob) j)) ps qs None)
              else instanceMatrix im ! j)"
      by auto
  qed
  show ?thesis
    unfolding visited_def vh using u f sl by simp
qed

lemma visited_funpow:
  "instanced ob = Some im \<Longrightarrow> visited reg ps qs k ob im ((visit_handle reg ps qs ^^ k) ob)"
  by (induction k) (simp_all add: visited_0 visited_Suc)

lemma visit_other: "r' \<noteq> r \<Longrightarrow> visit reg ps qs r' store r = store r"
  by (simp add: visit_def split: option.splits)

lemma visit_same: "visit reg ps qs r store r = map_option (visit_handle reg ps qs) (store r)"
  by (simp add: visit_def split: option.splits)

lemma fold_visit:
  "fold (visit reg ps qs) vs store r =
     map_option (visit_handle reg ps qs ^^ count_list vs r) (store r)"
proof (induction vs arbitrary: store)
  case Nil
  then show ?case by (simp add: option.map_ident)
next
  case (Cons v vs)
  show ?case
  proof (cases "v = r")
    case True
    then show ?thesis
      by (simp add: Cons.IH visit_same option.map_comp funpow_swap1 o_def)
  next
    case False
    then show ?thesis by (simp add: Cons.IH visit_other)
  qed
qed

lemma objects_frame_active:
  "active msg \<Longrightarrow> objects (frameHandler si msg c) =
     fold (visit (bodies_current (frameHandler si msg c)) (positions msg) (quaternions msg))
       (map snd (refs c)) (objects c)"
  by (simp add: frameHandler_def Let_def)

text \<open>
  C4 (as amended).  Take a replicated handle with \<open>R\<close> replicas whose replica identities
  all resolve in the registry (as the frame's body list leaves it), with its \<open>R\<close> slots
  allocated, and named by at least one key of \<open>refs\<close>.  An active frame writes exactly
  the slots \<open>0..R-1\<close>, each with the transform composed from its replica's index, and
  leaves the other slots alone.  The dirty flag is assigned inside the replica loop,
  once per replica, on every visit of the handle, and \<^verbatim>\<open>Object.values(refs)\<close> visits
  the handle once per key naming it: \<open>k * R\<close> assignments for \<open>k\<close> keys.
\<close>

theorem replicated_handle_frame:
  assumes "active msg" and "objects c r = Some ob" and "instanced ob = Some im"
    and "\<forall>i < count im.
           bodies_current (frameHandler si msg c) (replica_uuid (uuid ob) i) \<noteq> None"
    and "count im \<le> length (instanceMatrix im)"
    and "0 < count_list (map snd (refs c)) r"
  shows "\<exists>ob' im'.
     objects (frameHandler si msg c) r = Some ob' \<and> instanced ob' = Some im' \<and>
     count im' = count im \<and>
     length (instanceMatrix im') = length (instanceMatrix im) \<and>
     (\<forall>i < count im.
        instanceMatrix im' ! i =
          fst (apply_fn (bodies_current (frameHandler si msg c) (replica_uuid (uuid ob) i))
                 (positions msg) (quaternions msg) None)) \<and>
     (\<forall>j < length (instanceMatrix im). count im \<le> j \<longrightarrow>
        instanceMatrix im' ! j = instanceMatrix im ! j) \<and>
     version im' = version im + count_list (map snd (refs c)) r * count im"
proof -
  let ?reg = "bodies_current (frameHandler si msg c)"
  let ?k = "count_list (map snd (refs c)) r"
  let ?ob = "(visit_handle ?reg (positions msg) (quaternions msg) ^^ ?k) ob"
  have o: "objects (frameHandler si msg c) r = Some ?ob"
    using assms(1,2) by (simp add: objects_frame_active fold_visit)
  have "visited ?reg (positions msg) (quaternions msg) ?k ob im ?ob"
    using assms(3) by (rule visited_funpow)
  then obtain im' where i: "instanced ?ob = Some im'" and c: "count im' = count im"
    and v: "version im' = version im + ?k * count im"
    and l: "length (instanceMatrix im') = length (instanceMatrix im)"
    and s: "\<forall>j < length (instanceMatrix im).
           instanceMatrix im' ! j =
             (if 0 < ?k \<and> j < count im \<and> ?reg (replica_uuid (uuid ob) j) \<noteq> None
              then fst (apply_fn (?reg (replica_uuid (uuid ob) j)) (positions msg) (quaternions msg) None)
              else instanceMatrix im ! j)"
    unfolding visited_def by blast
  have a: "\<forall>i < count im. instanceMatrix im' ! i =
          fst (apply_fn (?reg (replica_uuid (uuid ob) i)) (positions msg) (quaternions msg) None)"
    using s assms(4,5,6) by auto
  have b: "\<forall>j < length (instanceMatrix im). count im \<le> j \<longrightarrow>
        instanceMatrix im' ! j = instanceMatrix im ! j"
    using s by auto
  from o i c l a b v show ?thesis by blast
qed


theorem replicated_handle_frame_witness:
  "active (frame_of True [''a'', ''m/0'', ''m/1'']) \<and>
   objects ctx_scene 1 = Some mesh2 \<and>
   instanced mesh2 = Some \<lparr>count = 2, instanceMatrix = [Identity, Identity], version = 0\<rparr> \<and>
   count_list (map snd (refs ctx_scene)) 1 = 2 \<and>
   (\<exists>ob' im'.
      objects (frameHandler True (frame_of True [''a'', ''m/0'', ''m/1'']) ctx_scene) 1 = Some ob' \<and>
      instanced ob' = Some im' \<and> version im' = 4 \<and>
      instanceMatrix im' ! 1 =
        Compose (Vector3 (Some 7) (Some 8) (Some 9))
          (Quaternion (Some 0) (Some 0) (Some 0) (Some 1)) s_one)"
proof -
  let ?msg = "frame_of True [''a'', ''m/0'', ''m/1'']"
  let ?im = "\<lparr>count = 2, instanceMatrix = [Identity, Identity], version = 0\<rparr>"
  have h1: "active ?msg" by (simp add: frame_of_def)
  have h2: "objects ctx_scene 1 = Some mesh2" by (simp add: ctx_scene_def ctx0_def)
  have h3: "instanced mesh2 = Some ?im" by (simp add: mesh2_def)
  have h4: "\<forall>i < count ?im.
      bodies_current (frameHandler True ?msg ctx_scene) (replica_uuid (uuid mesh2) i) \<noteq> None"
    by (simp add: numeral_2_eq_2 All_less_Suc bodies_current_frame frame_of_def replica_uuid_def
        string_of_nat_digit digit_def mesh2_def)
  have h5: "count ?im \<le> length (instanceMatrix ?im)" by simp
  have k: "count_list (map snd (refs ctx_scene)) 1 = 2"
    by (simp add: ctx_scene_def ctx0_def)
  then have h6: "0 < count_list (map snd (refs ctx_scene)) 1" by simp
  from replicated_handle_frame [OF h1 h2 h3 h4 h5 h6]
  obtain ob' im' where
    o: "objects (frameHandler True ?msg ctx_scene) 1 = Some ob'" "instanced ob' = Some im'"
    and s: "\<forall>i < count ?im. instanceMatrix im' ! i =
          fst (apply_fn (bodies_current (frameHandler True ?msg ctx_scene)
                           (replica_uuid (uuid mesh2) i))
                 (positions ?msg) (quaternions ?msg) None)"
    and v: "version im' = version ?im + count_list (map snd (refs ctx_scene)) 1 * count ?im"
    by blast
  from v k have v4: "version im' = 4" by simp
  from s [rule_format, of 1]
  have "instanceMatrix im' ! 1 =
        Compose (Vector3 (Some 7) (Some 8) (Some 9))
          (Quaternion (Some 0) (Some 0) (Some 0) (Some 1)) s_one"
    by (simp add: bodies_current_frame frame_of_def replica_uuid_def string_of_nat_digit
        digit_def mesh2_def v_fromArray_def q_fromArray_def rd_def)
  with h1 h2 h3 k o v4 show ?thesis by blast
qed

text \<open>
  The claim as stated fails: for a handle of two replicas that \<open>refs\<close> names under two
  keys, one per replica, one active frame assigns the dirty flag four times, not once.
\<close>

theorem dirty_flag_set_per_replica:
  "map_option (map_option version \<circ> instanced)
     (objects (frameHandler True (frame_of True [''a'', ''m/0'', ''m/1'']) ctx_scene) 1)
   = Some (Some 4)"
  by code_simp

section \<open>Observations\<close>

lemma calls_frame:
  "calls (frameHandler si msg c) =
     calls c @ concat (map (route (subscriptions c)) (observations msg))"
  by (simp add: frameHandler_def Let_def)

lemma subscriptions_frame: "subscriptions (frameHandler si msg c) = subscriptions c"
  by (simp add: frameHandler_def Let_def)

lemma incrementingId_frame: "incrementingId (frameHandler si msg c) = incrementingId c"
  by (simp add: frameHandler_def Let_def)

text \<open>
  C10.  The callbacks a frame invokes are, in the order of its observations list, the
  callback registered under each observation's id and type, applied to the observation's
  value; the \<open>active\<close> flag plays no part.  An observation whose id has a subscription
  of its type invokes exactly that callback with the value.
\<close>

theorem observations_delivered_whatever_active:
  "calls (frameHandler si msg c) =
     calls c @ concat (map (route (subscriptions c)) (observations msg)) \<and>
   calls (frameHandler si (msg\<lparr>active := False\<rparr>) c) =
     calls (frameHandler si (msg\<lparr>active := True\<rparr>) c) \<and>
   (subscriptions c sid = Some sub \<and> sub type = Some cb \<longrightarrow>
      route (subscriptions c) (sid, val, type) = [(cb, val)])"
  by (simp add: calls_frame route_def)

theorem observations_delivered_witness:
  "subscriptions ctx_scene 0 = Some [''position'' \<mapsto> Callback ''onPosition''] \<and>
   [''position'' \<mapsto> Callback ''onPosition''] ''position'' = Some (Callback ''onPosition'') \<and>
   calls (frameHandler True (frame_of False []) ctx_scene) =
     [(Callback ''onPosition'', JArr [JNum 1, JNum 2, JNum 3])]"
proof -
  have a: "subscriptions ctx_scene 0 = Some [''position'' \<mapsto> Callback ''onPosition'']"
    by (simp add: ctx_scene_def ctx0_def)
  have b: "[''position'' \<mapsto> Callback ''onPosition''] ''position'' = Some (Callback ''onPosition'')"
    by simp
  from observations_delivered_whatever_active
         [of True "frame_of False []" ctx_scene 0 "[''position'' \<mapsto> Callback ''onPosition'']"
             "''position''" "Callback ''onPosition''" "JArr [JNum 1, JNum 2, JNum 3]"] a b
  show ?thesis by (simp add: frame_of_def ctx_scene_def ctx0_def)
qed

section \<open>Orphaned subscriptions\<close>

lemma subscribe_fresh:
  "fst (subscribe cur t i tg cb c) = incrementingId c"
  "incrementingId (snd (subscribe cur t i tg cb c)) = Suc (incrementingId c)"
  "subscriptions (snd (subscribe cur t i tg cb c)) = (subscriptions c)(incrementingId c \<mapsto> [t \<mapsto> cb])"
  by (simp_all add: subscribe_def Let_def split: option.splits)

lemma unsubscribe_fields:
  "incrementingId (unsubscribe sid c) = incrementingId c"
  "subscriptions (unsubscribe sid c) = (subscriptions c)(sid := None)"
  by (simp_all add: unsubscribe_def Let_def)

lemma orphaned_step: "orphaned sid c \<Longrightarrow> orphaned sid (hook_step ev c)"
  by (cases ev)
    (auto simp: orphaned_def subscribe_fresh unsubscribe_fields subscriptions_frame
      incrementingId_frame)

lemma orphaned_fold: "orphaned sid c \<Longrightarrow> orphaned sid (fold hook_step evs c)"
  by (induction evs arbitrary: c) (auto intro: orphaned_step)

lemma orphaned_after_unsubscribe:
  "orphaned (fst (subscribe cur t i tg cb c))
     (unsubscribe (fst (subscribe cur t i tg cb c)) (snd (subscribe cur t i tg cb c)))"
  by (simp add: orphaned_def subscribe_fresh unsubscribe_fields)

lemma route_orphaned: "orphaned sid c \<Longrightarrow> route (subscriptions c) (sid, val, t) = []"
  by (simp add: orphaned_def route_def)

lemma concat_route_orphaned:
  "orphaned sid c \<Longrightarrow>
     concat (map (route (subscriptions c)) obs) =
     concat (map (route (subscriptions c)) (filter (\<lambda>ob. fst ob \<noteq> sid) obs))"
proof (induction obs)
  case Nil
  then show ?case by simp
next
  case (Cons ob obs)
  obtain a val t where ob: "ob = (a, val, t)" by (cases ob)
  with Cons show ?case by (simp add: route_orphaned)
qed

text \<open>
  C7.  Take the id a \<^verbatim>\<open>subscribe\<close> call returns and run its unsubscribe closure.
  Whatever happens afterwards on the caller side (other subscriptions, other closures,
  frames), no observation carrying that id is routed to a callback: on its own it
  invokes nothing, and the callbacks a frame invokes are those of its other
  observations.
\<close>

theorem orphaned_subscription_never_routed:
  "route
     (subscriptions
        (fold hook_step later
           (unsubscribe (fst (subscribe cur t i tg cb c)) (snd (subscribe cur t i tg cb c)))))
     (fst (subscribe cur t i tg cb c), val, t') = [] \<and>
   calls
     (frameHandler si msg
        (fold hook_step later
           (unsubscribe (fst (subscribe cur t i tg cb c)) (snd (subscribe cur t i tg cb c))))) =
   calls
     (fold hook_step later
        (unsubscribe (fst (subscribe cur t i tg cb c)) (snd (subscribe cur t i tg cb c)))) @
   concat
     (map
        (route
           (subscriptions
              (fold hook_step later
                 (unsubscribe (fst (subscribe cur t i tg cb c))
                    (snd (subscribe cur t i tg cb c))))))
        (filter (\<lambda>ob. fst ob \<noteq> fst (subscribe cur t i tg cb c)) (observations msg)))"
proof -
  let ?sid = "fst (subscribe cur t i tg cb c)"
  let ?c = "fold hook_step later (unsubscribe ?sid (snd (subscribe cur t i tg cb c)))"
  have o: "orphaned ?sid ?c"
    by (rule orphaned_fold) (rule orphaned_after_unsubscribe)
  have "route (subscriptions ?c) (?sid, val, t') = []"
    using o by (rule route_orphaned)
  moreover have "calls (frameHandler si msg ?c) =
      calls ?c @ concat (map (route (subscriptions ?c))
                          (filter (\<lambda>ob. fst ob \<noteq> ?sid) (observations msg)))"
    using concat_route_orphaned [OF o, of "observations msg"] by (simp add: calls_frame)
  ultimately show ?thesis by simp
qed

section \<open>Stepping\<close>

text \<open>
  The two worker scripts among the sources serve the older Provider, whose step message
  carries the buffers only: their \<^verbatim>\<open>case 'step'\<close> calls \<^verbatim>\<open>world.step(config.step)\<close> once.
\<close>

lemma older_workers_step:
  "snd (task eng (Op_step ps qs props) sync h) = None \<and>
   step_calls (fst (task eng (Op_step ps qs props) sync h)) =
     step_calls h @
       [\<lparr>sc_dt = config_step h, sc_timeSinceLastCalled = None, sc_maxSubSteps = None\<rparr>] \<and>
   world_bodies (fst (task eng (Op_step ps qs props) sync h)) =
     world_step eng (config_step h) None None (world_bodies h) \<and>
   task0 eng (Op0_step ps qs) sync h = task eng (Op_step ps qs props) sync h"
  by (simp add: step_def Let_def split: prod.splits)

lemma catch_up_le: "fst (catch_up h m acc) \<le> m"
  by (induction m arbitrary: acc) simp_all

lemma catch_up_rest: "snd (catch_up h m acc) = acc - real (fst (catch_up h m acc)) * h"
  by (induction m arbitrary: acc) (simp_all add: algebra_simps)

lemma catch_up_drained: "fst (catch_up h m acc) < m \<Longrightarrow> snd (catch_up h m acc) < h"
  by (induction m arbitrary: acc) (simp_all split: if_splits)

lemma catch_up_floor:
  "0 < h \<Longrightarrow> fst (catch_up h m acc) = min m (nat \<lfloor>acc / h\<rfloor>)"
proof (induction m arbitrary: acc)
  case 0
  then show ?case by simp
next
  case (Suc m)
  show ?case
  proof (cases "h \<le> acc")
    case True
    with Suc.prems have one: "1 \<le> acc / h" by (simp add: field_simps)
    then have f1: "1 \<le> \<lfloor>acc / h\<rfloor>" by (simp add: le_floor_iff)
    have "(acc - h) / h = acc / h - 1" using Suc.prems by (simp add: field_simps)
    then have "\<lfloor>(acc - h) / h\<rfloor> = \<lfloor>acc / h\<rfloor> - 1" by simp
    with f1 have "nat \<lfloor>(acc - h) / h\<rfloor> = nat \<lfloor>acc / h\<rfloor> - 1" by simp
    moreover from f1 have "1 \<le> nat \<lfloor>acc / h\<rfloor>" by linarith
    ultimately have "Suc (min m (nat \<lfloor>(acc - h) / h\<rfloor>)) = min (Suc m) (nat \<lfloor>acc / h\<rfloor>)"
      by simp
    with True Suc.IH [OF Suc.prems, of "acc - h"] show ?thesis
      by simp
  next
    case False
    with Suc.prems have "acc / h < 1" by (simp add: field_simps)
    then have "\<lfloor>acc / h\<rfloor> \<le> 0" by (simp add: floor_le_iff)
    with False show ?thesis by simp
  qed
qed

lemma host_step_fields:
  "substeps (host_step p s) =
     substeps s + fst (catch_up (stepSize p) (maxSubSteps p) (accumulator s + timeSinceLastCalled p))"
  "accumulator (host_step p s) =
     snd (catch_up (stepSize p) (maxSubSteps p) (accumulator s + timeSinceLastCalled p))"
  "world_time (host_step p s) =
     world_time s +
     real (fst (catch_up (stepSize p) (maxSubSteps p) (accumulator s + timeSinceLastCalled p))) *
       stepSize p"
  by (simp_all add: host_step_def split: prod.splits)

text \<open>
  C1.  For every step operation the host adds the elapsed time to its accumulator and
  makes fixed sub-steps of \<open>stepSize\<close>, never more than \<open>maxSubSteps\<close>: the world
  advances by the number of sub-steps times \<open>stepSize\<close>, the accumulator keeps the rest,
  and unless the cap stopped it the rest is less than one step; for a positive
  \<open>stepSize\<close> the number of sub-steps is the smaller of the cap and the number of whole
  steps in the accumulator.  The message the Provider's loop sends carries its elapsed
  time, \<open>stepSize\<close> and \<open>maxSubSteps\<close> to this operation.  With \<open>maxSubSteps = 10\<close>,
  \<open>stepSize = 1/60\<close> and one second elapsed on an empty accumulator, exactly 10
  sub-steps are made.
\<close>

theorem step_accumulator_capped:
  "substeps s \<le> substeps (host_step p s) \<and>
   substeps (host_step p s) \<le> substeps s + maxSubSteps p \<and>
   world_time (host_step p s) =
     world_time s + real (substeps (host_step p s) - substeps s) * stepSize p \<and>
   accumulator (host_step p s) =
     accumulator s + timeSinceLastCalled p -
       real (substeps (host_step p s) - substeps s) * stepSize p \<and>
   (substeps (host_step p s) < substeps s + maxSubSteps p \<longrightarrow>
      accumulator (host_step p s) < stepSize p) \<and>
   (0 < stepSize p \<longrightarrow>
      substeps (host_step p s) =
        substeps s +
        min (maxSubSteps p) (nat \<lfloor>(accumulator s + timeSinceLastCalled p) / stepSize p\<rfloor>)) \<and>
   receive (last (api_calls (snd (loop False m sz delta (elapsed, c))))) s =
     host_step \<lparr>maxSubSteps = m, stepSize = sz, timeSinceLastCalled = elapsed + delta\<rparr> s \<and>
   substeps (host_step \<lparr>maxSubSteps = 10, stepSize = 1 / 60, timeSinceLastCalled = 1\<rparr>
               (s\<lparr>accumulator := 0\<rparr>)) = substeps s + 10"
proof -
  let ?c = "catch_up (stepSize p) (maxSubSteps p) (accumulator s + timeSinceLastCalled p)"
  have a: "substeps (host_step p s) - substeps s = fst ?c" by (simp add: host_step_fields)
  have "substeps s \<le> substeps (host_step p s)" by (simp add: host_step_fields)
  moreover have "substeps (host_step p s) \<le> substeps s + maxSubSteps p"
    by (simp add: host_step_fields catch_up_le)
  moreover have "world_time (host_step p s) =
     world_time s + real (substeps (host_step p s) - substeps s) * stepSize p"
    unfolding a by (simp add: host_step_fields)
  moreover have "accumulator (host_step p s) =
     accumulator s + timeSinceLastCalled p -
       real (substeps (host_step p s) - substeps s) * stepSize p"
    unfolding a by (simp add: host_step_fields catch_up_rest)
  moreover have "substeps (host_step p s) < substeps s + maxSubSteps p \<longrightarrow>
      accumulator (host_step p s) < stepSize p"
    by (simp add: host_step_fields catch_up_drained)
  moreover have "0 < stepSize p \<longrightarrow>
      substeps (host_step p s) =
        substeps s +
        min (maxSubSteps p) (nat \<lfloor>(accumulator s + timeSinceLastCalled p) / stepSize p\<rfloor>)"
    by (simp add: host_step_fields catch_up_floor)
  moreover have "receive (last (api_calls (snd (loop False m sz delta (elapsed, c))))) s =
     host_step \<lparr>maxSubSteps = m, stepSize = sz, timeSinceLastCalled = elapsed + delta\<rparr> s"
    by (simp add: loop_def receive_def)
  moreover have "substeps (host_step \<lparr>maxSubSteps = 10, stepSize = 1 / 60, timeSinceLastCalled = 1\<rparr>
               (s\<lparr>accumulator := 0\<rparr>)) = substeps s + 10"
    by (simp add: host_step_fields catch_up_floor)
  ultimately show ?thesis by blast
qed

theorem step_accumulator_capped_witness:
  "0 < stepSize (stall 1) \<and>
   substeps (host_step (stall 1) stepper0) = 10 \<and>
   world_time (host_step (stall 1) stepper0) = 1 / 6 \<and>
   accumulator (host_step (stall 1) stepper0) = 5 / 6 \<and>
   substeps (host_step (stall (1 / 30)) stepper0) = 2 \<and>
   substeps (host_step (stall (1 / 30)) stepper0) < substeps stepper0 + maxSubSteps (stall (1 / 30)) \<and>
   accumulator (host_step (stall (1 / 30)) stepper0) < stepSize (stall (1 / 30)) \<and>
   receive (last (api_calls (snd (loop False 10 (1 / 60) 1 (0, ctx0))))) stepper0 =
     host_step (stall 1) stepper0"
proof -
  have h: "0 < stepSize (stall 1)" "0 < stepSize (stall (1 / 30))" by (simp_all add: stall_def)
  note a = step_accumulator_capped [of stepper0 "stall 1" 10 "1 / 60" 1 0 ctx0]
  note b = step_accumulator_capped [of stepper0 "stall (1 / 30)" 10 "1 / 60" 1 0 ctx0]
  from a h have a1: "substeps (host_step (stall 1) stepper0) = 10"
    by (simp add: stall_def stepper0_def)
  from b h have b1: "substeps (host_step (stall (1 / 30)) stepper0) = 2"
    by (simp add: stall_def stepper0_def)
  from a a1 have a2: "world_time (host_step (stall 1) stepper0) = 1 / 6"
    "accumulator (host_step (stall 1) stepper0) = 5 / 6"
    by (simp_all add: stall_def stepper0_def)
  from b b1 have b2: "accumulator (host_step (stall (1 / 30)) stepper0) < stepSize (stall (1 / 30))"
    by (simp add: stall_def stepper0_def)
  from b1 have b3: "substeps (host_step (stall (1 / 30)) stepper0) <
      substeps stepper0 + maxSubSteps (stall (1 / 30))"
    by (simp add: stall_def stepper0_def)
  from a have a3: "receive (last (api_calls (snd (loop False 10 (1 / 60) 1 (0, ctx0))))) stepper0 =
     host_step (stall 1) stepper0"
    by (simp add: stall_def)
  from h a1 a2 b1 b2 b3 a3 show ?thesis by simp
qed

section \<open>Unknown identities\<close>

lemma syncBodies_world: "world_bodies (syncBodies h) = world_bodies h"
  by (simp add: syncBodies_def Let_def)

text \<open>
  C6 (as amended).  For an identity that is not in the table, \<^verbatim>\<open>setPosition\<close> and
  \<^verbatim>\<open>setRotation\<close> throw a \<^verbatim>\<open>TypeError\<close> (both workers call a method on
  \<^verbatim>\<open>bodies[uuid]\<close>, which is \<^verbatim>\<open>undefined\<close>) and leave the whole state as it was.
  \<^verbatim>\<open>removeBody\<close> hands \<^verbatim>\<open>undefined\<close> to the engine's \<^verbatim>\<open>removeBody\<close>: the world's bodies
  are unchanged, what is raised is what the engine raises there, and if it raises the
  state is as it was.
\<close>

theorem unknown_identity_throws:
  "bodies_w h u = None \<Longrightarrow>
     task eng (Op_setPosition u p) sync h = (h, Some TypeError) \<and>
     task eng (Op_setRotation u r) sync h = (h, Some TypeError) \<and>
     task0 eng (Op0_setPosition u p') sync h = (h, Some TypeError) \<and>
     task0 eng (Op0_setRotation u r') sync h = (h, Some TypeError) \<and>
     snd (task eng (Op_removeBody u) sync h) = removeBody_undefined eng \<and>
     world_bodies (fst (task eng (Op_removeBody u) sync h)) = world_bodies h \<and>
     task0 eng (Op0_removeBody u) sync h = task eng (Op_removeBody u) sync h \<and>
     (removeBody_undefined eng = Some err \<longrightarrow>
        task eng (Op_removeBody u) sync h = (h, Some err))"
  by (auto simp: on_body_def setRotation0_def removeBody_def world_removeBody_def
      syncBodies_world split: option.splits)

text \<open>The claim as stated fails: a \<^verbatim>\<open>setPosition\<close> for an unknown identity raises.\<close>

theorem setPosition_unknown_raises:
  "snd (onmessage engine0 (Op_setPosition ''ghost'' (1, 2, 3)) host0) = Some TypeError"
  by (simp add: onmessage_def on_body_def host0_def)

theorem unknown_identity_throws_witness:
  "bodies_w host0 ''ghost'' = None \<and>
   onmessage engine0 (Op_setRotation ''ghost'' (0, 0, 0)) host0 = (host0, Some TypeError) \<and>
   onmessage engine0 (Op_removeBody ''ghost'') host0 = (host0, Some TypeError)"
proof -
  have a: "bodies_w host0 ''ghost'' = None" by (simp add: host0_def)
  have b: "removeBody_undefined engine0 = Some TypeError" by (simp add: engine0_def)
  from unknown_identity_throws [OF a, of engine0 "(0, 0, 0)" True "(0, 0, 0)" None None TypeError] a b
  show ?thesis by (simp add: onmessage_def)
qed

section \<open>Unknown shape tags\<close>










section \<open>Batches\<close>

lemma addBody_no_sync:
  "snd (addBody eng u type props False h) = None \<Longrightarrow>
     posted (fst (addBody eng u type props False h)) = posted h \<and>
     map b_uuid (world_bodies (fst (addBody eng u type props False h))) =
       map b_uuid (world_bodies h) @ [u]"
  by (auto simp: addBody_def world_addBody_def Let_def split: option.splits sum.splits)

lemma addBodies_loop_posted:
  "snd (addBodies_loop eng type props us i h) = None \<Longrightarrow>
     posted (fst (addBodies_loop eng type props us i h)) = posted h \<and>
     map b_uuid (world_bodies (fst (addBodies_loop eng type props us i h))) =
       map b_uuid (world_bodies h) @ us"
proof (induction us arbitrary: i h)
  case Nil
  then show ?case by simp
next
  case (Cons u us)
  let ?r = "addBody eng u type (if i < length props then Some (props ! i) else None) False h"
  from Cons.prems have ok: "snd ?r = None"
    by (cases ?r) (auto split: option.splits)
  then obtain h1 where r: "?r = (h1, None)" by (cases ?r) auto
  from addBody_no_sync [OF ok] r have h1: "posted h1 = posted h"
    "map b_uuid (world_bodies h1) = map b_uuid (world_bodies h) @ [u]" by simp_all
  from Cons.prems r have "snd (addBodies_loop eng type props us (Suc i) h1) = None" by simp
  from Cons.IH [OF this] h1 r show ?case by simp
qed

lemma posted_syncBodies:
  "posted (syncBodies h) = posted h @ [Sync_message (map b_uuid (world_bodies h))]"
  by (simp add: syncBodies_def Let_def)

text \<open>A batch of additions that raises nothing posts one sync, after the last member.\<close>

lemma addBodies_single_sync:
  "snd (task eng (Op_addBodies us type props) sync h) = None \<Longrightarrow>
     posted (fst (task eng (Op_addBodies us type props) sync h)) =
       posted h @ [Sync_message (map b_uuid (world_bodies h) @ us)]"
proof -
  assume a: "snd (task eng (Op_addBodies us type props) sync h) = None"
  let ?r = "addBodies_loop eng type props us 0 h"
  from a have ok: "snd ?r = None" by (cases ?r) (auto split: option.splits)
  then obtain h1 where r: "?r = (h1, None)" by (cases ?r) auto
  from addBodies_loop_posted [OF ok] r show ?thesis by (simp add: posted_syncBodies)
qed

lemma removeBody_sync_posted:
  "snd (removeBody eng u True h) = None \<Longrightarrow>
     length (posted (fst (removeBody eng u True h))) = Suc (length (posted h))"
  by (auto simp: removeBody_def world_removeBody_def posted_syncBodies
      split: option.splits prod.splits)

lemma removeBodies_loop_posted:
  "snd (removeBodies_loop eng us h) = None \<Longrightarrow>
     length (posted (fst (removeBodies_loop eng us h))) = length (posted h) + length us"
proof (induction us arbitrary: h)
  case Nil
  then show ?case by simp
next
  case (Cons u us)
  let ?r = "removeBody eng u True h"
  from Cons.prems have ok: "snd ?r = None" by (cases ?r) (auto split: option.splits)
  then obtain h1 where r: "?r = (h1, None)" by (cases ?r) auto
  from removeBody_sync_posted [OF ok] r have h1: "length (posted h1) = Suc (length (posted h))"
    by simp
  from Cons.prems r have "snd (removeBodies_loop eng us h1) = None" by simp
  from Cons.IH [OF this] h1 r show ?case by simp
qed

text \<open>A batch of \<open>N\<close> removals that raises nothing posts \<open>N + 1\<close> syncs.\<close>

lemma removeBodies_syncs:
  "snd (task eng (Op_removeBodies us) sync h) = None \<Longrightarrow>
     length (posted (fst (task eng (Op_removeBodies us) sync h))) =
       length (posted h) + length us + 1"
proof -
  assume a: "snd (task eng (Op_removeBodies us) sync h) = None"
  let ?r = "removeBodies_loop eng us h"
  from a have ok: "snd ?r = None" by (cases ?r) (auto split: option.splits)
  then obtain h1 where r: "?r = (h1, None)" by (cases ?r) auto
  from removeBodies_loop_posted [OF ok] r show ?thesis by (simp add: posted_syncBodies)
qed

lemmas host_eval = onmessage_def addBody_def shape_switch_def construct_def engine0_def
  host0_def props0_def syncBodies_def world_addBody_def removeBody_def world_removeBody_def
  triplet_or_def Let_def

text \<open>
  C5, at a failing input.  Two bodies \<open>a\<close> and \<open>b\<close> are added in one batch: one sync,
  listing them in order.  They are then removed in one batch: the worker (either one)
  posts a sync after each member and one more after the loop, three for two members.
\<close>

theorem removeBodies_publishes_per_member:
  "posted host_ab = [Sync_message [''a'', ''b'']] \<and>
   posted (fst (onmessage engine0 (Op_removeBodies [''a'', ''b'']) host_ab)) =
     [Sync_message [''a'', ''b''], Sync_message [''b''], Sync_message [], Sync_message []] \<and>
   posted (fst (task0 engine0 (Op0_removeBodies [''a'', ''b'']) True host_ab)) =
     [Sync_message [''a'', ''b''], Sync_message [''b''], Sync_message [], Sync_message []]"
  by (simp add: host_ab_def host_eval)

section \<open>Malformed arguments\<close>

















section \<open>From the worker to the registry\<close>

lemma sync_handler_bij:
  "distinct ids \<Longrightarrow>
     bij_betw (\<lambda>v. the (sync_handler ids v)) (set ids) (int ` {0..<length ids})"
  by (rule bij_betw_positions) (simp_all add: sync_handler_in indexOf_nth)

lemma set_remove_ref: "set (remove_ref r bs) \<subseteq> set bs"
  by (induction bs) auto

lemma distinct_remove_ref:
  "distinct (map b_uuid bs) \<Longrightarrow> distinct (map b_uuid (remove_ref r bs))"
proof (induction bs)
  case Nil
  then show ?case by simp
next
  case (Cons b bs)
  have "b_uuid ` set (remove_ref r bs) \<subseteq> b_uuid ` set bs"
    using set_remove_ref [of r bs] by blast
  with Cons show ?case by auto
qed

lemma addBody_sync:
  "addBody eng u type props True h = (h', None) \<Longrightarrow>
     posted h' = posted h @ [Sync_message (map b_uuid (world_bodies h'))] \<and>
     map b_uuid (world_bodies h') = map b_uuid (world_bodies h) @ [u]"
  by (auto simp: addBody_def world_addBody_def posted_syncBodies syncBodies_world Let_def
      split: option.splits sum.splits)

lemma removeBody_sync:
  "removeBody eng u True h = (h', None) \<Longrightarrow>
     posted h' = posted h @ [Sync_message (map b_uuid (world_bodies h'))] \<and>
     (world_bodies h' = world_bodies h \<or> (\<exists>r. world_bodies h' = remove_ref r (world_bodies h)))"
  by (auto simp: removeBody_def world_removeBody_def posted_syncBodies syncBodies_world
      split: option.splits prod.splits)

text \<open>
  From the worker to the registry: after an addition of a new identity or a removal that
  raised nothing, the last message posted is the sync listing the world's bodies; the
  list has no duplicates, and the registry rebuilt from it is a bijection from the
  identities in the world onto \<open>[0, bodyCount)\<close>.
\<close>

lemma membership_sync_registry:
  assumes "distinct (map b_uuid (world_bodies h))"
    and "e = Op_addBody u type (Some p) \<and> u \<notin> set (map b_uuid (world_bodies h)) \<or>
         e = Op_removeBody u"
    and "onmessage eng e h = (h', None)"
  shows "posted h' = posted h @ [Sync_message (map b_uuid (world_bodies h'))] \<and>
     distinct (map b_uuid (world_bodies h')) \<and>
     bij_betw (\<lambda>v. the (sync_handler (map b_uuid (world_bodies h')) v))
       (set (map b_uuid (world_bodies h'))) (int ` {0..<length (world_bodies h')})"
proof -
  from assms(2) have pd: "posted h' = posted h @ [Sync_message (map b_uuid (world_bodies h'))] \<and>
     distinct (map b_uuid (world_bodies h'))"
  proof
    assume a: "e = Op_addBody u type (Some p) \<and> u \<notin> set (map b_uuid (world_bodies h))"
    with assms(3) have "addBody eng u type (Some p) True h = (h', None)"
      by (simp add: onmessage_def)
    from addBody_sync [OF this] a assms(1) show ?thesis by simp
  next
    assume "e = Op_removeBody u"
    with assms(3) have "removeBody eng u True h = (h', None)" by (simp add: onmessage_def)
    from removeBody_sync [OF this] assms(1) show ?thesis
      by (auto simp: distinct_remove_ref)
  qed
  then have d: "distinct (map b_uuid (world_bodies h'))" by simp
  have "bij_betw (\<lambda>v. the (sync_handler (map b_uuid (world_bodies h')) v))
       (set (map b_uuid (world_bodies h'))) (int ` {0..<length (map b_uuid (world_bodies h'))})"
    using d by (rule sync_handler_bij)
  with pd show ?thesis by simp
qed

end
